theory Spec2Isabelle
  imports Complex_Main "HOL-Library.Sublist" "HOL-Library.Multiset"
begin

section \<open>Python values\<close>

text \<open>
  The pipeline of \<^verbatim>\<open>invoice_processor.py\<close> works on the values that
  \<^verbatim>\<open>json.loads\<close> returns: \<^verbatim>\<open>None\<close>, booleans, integers, floats, strings, lists
  and dictionaries. A Python string is a sequence of code points, so it is modelled as a
  list of natural numbers; \<open>lit\<close> turns an ASCII literal into such a list. A float
  is modelled by the rational number it denotes (every finite double is one); the
  non-finite floats \<^verbatim>\<open>NaN\<close> and \<^verbatim>\<open>Infinity\<close>, which standard JSON does not have,
  are outside the model, and \<^verbatim>\<open>-0.0\<close> is not told apart from \<^verbatim>\<open>0.0\<close> (they are equal
  and both falsy). A dictionary is an association list in insertion order.
\<close>

type_synonym pystr = "nat list"

definition lit :: "string \<Rightarrow> pystr" where
  "lit cs = map of_char cs"

datatype pyval =
    PNone
  | PBool bool
  | PInt int
  | PFloat rat
  | PStr pystr
  | PList "pyval list"
  | PDict "(pyval \<times> pyval) list"

type_synonym pydict = "(pyval \<times> pyval) list"

abbreviation pstr :: "string \<Rightarrow> pyval" where
  "pstr s \<equiv> PStr (lit s)"

text \<open>The exceptions that the modelled code can raise.\<close>

datatype error =
    AttributeError
  | TypeError
  | ValueError
  | IndexError
  | Exception pystr

text \<open>Sequencing of computations that may raise: the first exception ends the run.\<close>

fun bind_err :: "error + 'a \<Rightarrow> ('a \<Rightarrow> error + 'b) \<Rightarrow> error + 'b" where
  "bind_err (Inl e) f = Inl e"
| "bind_err (Inr x) f = f x"

text \<open>
  \<^verbatim>\<open>bool(v)\<close>: \<^verbatim>\<open>None\<close>, \<^verbatim>\<open>False\<close>, zero, the empty string, the empty list and the
  empty dictionary are falsy.
\<close>

fun truthy :: "pyval \<Rightarrow> bool" where
  "truthy PNone = False"
| "truthy (PBool b) = b"
| "truthy (PInt n) = (n \<noteq> 0)"
| "truthy (PFloat r) = (r \<noteq> 0)"
| "truthy (PStr s) = (s \<noteq> [])"
| "truthy (PList xs) = (xs \<noteq> [])"
| "truthy (PDict d) = (d \<noteq> [])"

text \<open>
  Lists and dictionaries are unhashable: using one in a set or as a key raises
  \<^verbatim>\<open>TypeError\<close>.
\<close>

fun hashable :: "pyval \<Rightarrow> bool" where
  "hashable (PList xs) = False"
| "hashable (PDict d) = False"
| "hashable v = True"

text \<open>
  Python's \<^verbatim>\<open>==\<close> on hashable values: booleans, integers and floats compare by their
  numeric value (\<^verbatim>\<open>True == 1 == 1.0\<close>), \<^verbatim>\<open>None\<close> equals only itself, strings compare
  by content, and values of different kinds are unequal. The pipeline only compares
  values it has hashed before, so the clause for containers is never reached.
\<close>

fun num_of :: "pyval \<Rightarrow> rat option" where
  "num_of (PBool b) = Some (if b then 1 else 0)"
| "num_of (PInt n) = Some (of_int n)"
| "num_of (PFloat r) = Some r"
| "num_of v = None"

definition py_eq :: "pyval \<Rightarrow> pyval \<Rightarrow> bool" where
  "py_eq a b =
     (case (num_of a, num_of b) of
        (Some x, Some y) \<Rightarrow> x = y
      | (None, None) \<Rightarrow> a = b
      | _ \<Rightarrow> False)"

text \<open>A tuple of values; two tuples are equal when they are equal component by component.\<close>

type_synonym pytuple = "pyval list"

definition tuple_eq :: "pytuple \<Rightarrow> pytuple \<Rightarrow> bool" where
  "tuple_eq s t = list_all2 py_eq s t"

definition tuple_hashable :: "pytuple \<Rightarrow> bool" where
  "tuple_hashable t = list_all hashable t"

text \<open>\<^verbatim>\<open>key in seen\<close> for a set of tuples, kept as the list of its members.\<close>

definition set_contains :: "pytuple list \<Rightarrow> pytuple \<Rightarrow> bool" where
  "set_contains seen k = list_ex (\<lambda>s. tuple_eq s k) seen"

subsection \<open>Dictionaries\<close>

text \<open>The entry stored under a key, if there is one.\<close>

fun lookup :: "pydict \<Rightarrow> pyval \<Rightarrow> pyval option" where
  "lookup [] k = None"
| "lookup ((k', v) # d) k = (if py_eq k' k then Some v else lookup d k)"

text \<open>\<^verbatim>\<open>d.get(k)\<close> is \<^verbatim>\<open>None\<close> for a missing key; \<^verbatim>\<open>d.get(k, default)\<close> is the default.\<close>

definition dict_get :: "pydict \<Rightarrow> string \<Rightarrow> pyval" where
  "dict_get d k = (case lookup d (PStr (lit k)) of None \<Rightarrow> PNone | Some v \<Rightarrow> v)"

definition dict_get_default :: "pydict \<Rightarrow> string \<Rightarrow> pyval \<Rightarrow> pyval" where
  "dict_get_default d k dflt = (case lookup d (PStr (lit k)) of None \<Rightarrow> dflt | Some v \<Rightarrow> v)"

text \<open>\<^verbatim>\<open>d[k] = v\<close>: an existing key keeps its place, a new key goes to the end.\<close>

fun dict_set :: "pydict \<Rightarrow> pyval \<Rightarrow> pyval \<Rightarrow> pydict" where
  "dict_set [] k v = [(k, v)]"
| "dict_set ((k', v') # d) k v =
     (if py_eq k' k then (k', v) # d else (k', v') # dict_set d k v)"

section \<open>Library functions and the outside world\<close>

text \<open>
  The code calls library functions whose results this development does not compute:
  the JSON decoder, the rendering of floats and containers as text, the formatting of a
  float with two decimals, Unicode upper-casing and the JSON encoder. They are
  parameters of the model; every theorem holds for all of them.
  \<^item> \<open>json_loads s\<close> is the value \<^verbatim>\<open>json.loads(s)\<close> returns, or \<open>None\<close> when it
    raises (\<^verbatim>\<open>JSONDecodeError\<close> on text that is not JSON);
  \<^item> \<open>repr_of v\<close> is \<^verbatim>\<open>str(v)\<close> for a float, a list or a dictionary, when the
    conversion does not raise;
  \<^item> \<open>money v\<close> is the text of \<^verbatim>\<open>f"{float(v):,.2f}"\<close>, or \<open>None\<close> when the
    coercion \<^verbatim>\<open>float(v)\<close> raises;
  \<^item> \<open>upper s\<close> is \<^verbatim>\<open>s.upper()\<close>;
  \<^item> \<open>json_dumps\<close> is \<^verbatim>\<open>json.dumps(_, indent=2, ensure_ascii=False)\<close>, when the
    encoding does not raise;
  \<^item> \<open>int_max_str_digits\<close> is the interpreter's limit on the number of digits of an
    integer that is converted to text (\<^verbatim>\<open>sys.get_int_max_str_digits()\<close>): 4300 by
    default, 0 when the limit is switched off or the interpreter has none.
\<close>

record pylib =
  json_loads :: "pystr \<Rightarrow> pyval option"
  repr_of :: "pyval \<Rightarrow> pystr"
  money :: "pyval \<Rightarrow> pystr option"
  upper :: "pystr \<Rightarrow> pystr"
  json_dumps :: "pydict list \<Rightarrow> pystr"
  int_max_str_digits :: nat

text \<open>
  Decimal digits of an integer, as \<^verbatim>\<open>str(n)\<close> writes them (48 is the digit zero, 45 the
  minus sign).
\<close>

fun nat_digits :: "nat \<Rightarrow> pystr" where
  "nat_digits n = (if n < 10 then [48 + n] else nat_digits (n div 10) @ [48 + n mod 10])"

declare nat_digits.simps [simp del]

definition int_str :: "int \<Rightarrow> pystr" where
  "int_str n = (if n < 0 then 45 # nat_digits (nat (- n)) else nat_digits (nat n))"

text \<open>
  Converting an integer to text, by \<^verbatim>\<open>str\<close>, \<^verbatim>\<open>repr\<close>, an f-string or the JSON
  encoder, raises \<^verbatim>\<open>ValueError\<close> when the limit is on and the integer has more digits
  than the limit. The interpreter accepts no limit below 640 and never refuses a text
  of 640 characters or less. A list or a dictionary is converted by converting what it
  holds, so it raises when an integer in it does.
\<close>

definition too_many_digits :: "nat \<Rightarrow> int \<Rightarrow> bool" where
  "too_many_digits bound n = (0 < bound \<and> max bound 640 < length (nat_digits (nat \<bar>n\<bar>)))"

fun oversized :: "nat \<Rightarrow> pyval \<Rightarrow> bool" where
  "oversized bound (PInt n) = too_many_digits bound n"
| "oversized bound (PList xs) = list_ex (oversized bound) xs"
| "oversized bound (PDict d) = list_ex (\<lambda>e. oversized bound (fst e) \<or> oversized bound (snd e)) d"
| "oversized bound v = False"

text \<open>The text of a value whose conversion does not raise.\<close>

fun py_text :: "pylib \<Rightarrow> pyval \<Rightarrow> pystr" where
  "py_text lib (PStr s) = s"
| "py_text lib PNone = lit ''None''"
| "py_text lib (PBool b) = (if b then lit ''True'' else lit ''False'')"
| "py_text lib (PInt n) = int_str n"
| "py_text lib v = repr_of lib v"

text \<open>\<^verbatim>\<open>str(v)\<close>, which is also how an f-string renders \<^verbatim>\<open>{v}\<close>.\<close>

definition py_str :: "pylib \<Rightarrow> pyval \<Rightarrow> error + pystr" where
  "py_str lib v =
     (if oversized (int_max_str_digits lib) v then Inl ValueError else Inr (py_text lib v))"

text \<open>
  The code reports its progress with \<^verbatim>\<open>print\<close>. Writing to the standard output is
  taken to succeed, so what the model keeps of a \<^verbatim>\<open>print\<close> is the exception that
  building its text can raise. The page numbers, lengths and counts that the messages
  show are positions in and sizes of lists in memory, far below 640 digits; only the
  values of the invoice data can make a message raise.
\<close>

text \<open>
  Iterating over a value: a list yields its elements, a string its characters (strings
  of length one), a dictionary its keys; nothing else is iterable.
\<close>

fun py_iter :: "pyval \<Rightarrow> error + pyval list" where
  "py_iter (PList xs) = Inr xs"
| "py_iter (PStr s) = Inr (map (\<lambda>c. PStr [c]) s)"
| "py_iter (PDict d) = Inr (map fst d)"
| "py_iter v = Inl TypeError"

section \<open>Stage 1: load_and_split_pdf\<close>

text \<open>
  What \<^verbatim>\<open>pdfplumber\<close> does is an input of the model: opening the document fails with a
  message or yields the pages, and each page either fails while it is rendered or read,
  or yields its image (base64) and the result of \<^verbatim>\<open>extract_text()\<close>, which may be
  \<^verbatim>\<open>None\<close>.
\<close>

datatype page_source = RenderFailed | Rendered pystr "pystr option"

datatype pdf_source = OpenFailed pystr | Opened "page_source list"

record page_data =
  page_num :: nat
  image_base64 :: pystr
  page_text :: pystr

text \<open>The inner loop over \<^verbatim>\<open>enumerate(pdf.pages)\<close>; a failing page is skipped.\<close>

fun load_pages :: "page_data list \<Rightarrow> nat \<Rightarrow> page_source list \<Rightarrow> page_data list" where
  "load_pages pages_data n [] = pages_data"
| "load_pages pages_data n (RenderFailed # rest) = load_pages pages_data (n + 1) rest"
| "load_pages pages_data n (Rendered img txt # rest) =
     load_pages
       (pages_data @
          [\<lparr>page_num = n + 1, image_base64 = img,
            page_text = (case txt of None \<Rightarrow> [] | Some t \<Rightarrow> t)\<rparr>])
       (n + 1) rest"

definition load_and_split_pdf :: "pdf_source \<Rightarrow> error + page_data list" where
  "load_and_split_pdf pdf =
     (case pdf of
        OpenFailed msg \<Rightarrow> Inl (Exception (lit ''Failed to load PDF: '' @ msg))
      | Opened pages \<Rightarrow> Inr (load_pages [] 0 pages))"

section \<open>Stage 2: call_ollama and extract_invoices_from_pages\<close>

text \<open>
  The outcome of the HTTP request of one call: \<^verbatim>\<open>requests.post\<close> raises
  \<^verbatim>\<open>ConnectionError\<close>; or the request, the status check or the decoding of the body
  raises something else; or \<^verbatim>\<open>response.json()\<close> returns a value.
\<close>

datatype post_outcome = ConnectionError | RequestFailed | Body pyval

text \<open>\<^verbatim>\<open>str.isspace\<close> on one code point, and \<^verbatim>\<open>str.strip()\<close>.\<close>

definition is_space :: "nat \<Rightarrow> bool" where
  "is_space c =
     ((9 \<le> c \<and> c \<le> 13) \<or> (28 \<le> c \<and> c \<le> 32) \<or> c = 133 \<or> c = 160 \<or> c = 5760 \<or>
      (8192 \<le> c \<and> c \<le> 8202) \<or> c = 8232 \<or> c = 8233 \<or> c = 8239 \<or> c = 8287 \<or> c = 12288)"

definition strip :: "pystr \<Rightarrow> pystr" where
  "strip s = rev (dropWhile is_space (rev (dropWhile is_space s)))"

text \<open>\<^verbatim>\<open>s.find(c)\<close> and \<^verbatim>\<open>s.rfind(c)\<close> for a single character: \<open>-1\<close> when it is absent.\<close>

definition find_char :: "pystr \<Rightarrow> nat \<Rightarrow> int" where
  "find_char s c = (if c \<in> set s then int (length (takeWhile (\<lambda>x. x \<noteq> c) s)) else - 1)"

definition rfind_char :: "pystr \<Rightarrow> nat \<Rightarrow> int" where
  "rfind_char s c =
     (if c \<in> set s then int (length s) - 1 - int (length (takeWhile (\<lambda>x. x \<noteq> c) (rev s)))
      else - 1)"

text \<open>\<^verbatim>\<open>s[i:j]\<close>: a negative index counts from the end, and both are clamped to the string.\<close>

definition clamp_index :: "pystr \<Rightarrow> int \<Rightarrow> nat" where
  "clamp_index s i =
     (if i < 0 then nat (max (i + int (length s)) 0) else min (nat i) (length s))"

definition slice :: "pystr \<Rightarrow> int \<Rightarrow> int \<Rightarrow> pystr" where
  "slice s i j = take (clamp_index s j - clamp_index s i) (drop (clamp_index s i) s)"

definition non_invoice :: pyval where
  "non_invoice = PDict [(PStr (lit ''type''), PStr (lit ''non_invoice''))]"

text \<open>
  The body of the \<^verbatim>\<open>try\<close> from the response on. \<open>None\<close> stands for an exception that
  the handlers turn into the non-invoice marker: \<^verbatim>\<open>AttributeError\<close> when the body is
  not a dictionary or its \<^verbatim>\<open>response\<close> entry is not a string, \<^verbatim>\<open>JSONDecodeError\<close> when
  the text is not JSON. The code points 96, 123 and 125 are the backtick and the two
  braces.
\<close>

definition decode_response :: "pylib \<Rightarrow> pyval \<Rightarrow> pyval option" where
  "decode_response lib response_json =
     (case response_json of
        PDict d \<Rightarrow>
          (case dict_get_default d ''response'' (PStr []) of
             PStr full_response \<Rightarrow>
               (let stripped = strip full_response;
                    cleaned =
                      (if take 3 stripped = [96, 96, 96]
                       then slice stripped (find_char stripped 123) (rfind_char stripped 125 + 1)
                       else stripped)
                in json_loads lib cleaned)
           | _ \<Rightarrow> None)
      | _ \<Rightarrow> None)"

definition call_ollama :: "pylib \<Rightarrow> post_outcome \<Rightarrow> error + pyval" where
  "call_ollama lib outcome =
     (case outcome of
        ConnectionError \<Rightarrow>
          Inl (Exception (lit ''Could not connect to Ollama. Make sure to run '' @ [39] @
                 lit ''ollama serve'' @ [39] @ lit '' in a separate terminal.''))
      | RequestFailed \<Rightarrow> Inr non_invoice
      | Body response_json \<Rightarrow>
          (case decode_response lib response_json of
             None \<Rightarrow> Inr non_invoice
           | Some invoice_data \<Rightarrow> Inr invoice_data))"

text \<open>
  The loop of \<^verbatim>\<open>extract_invoices_from_pages\<close>. \<open>post page\<close> is the outcome of the
  request made for that page. \<^verbatim>\<open>invoice_data.get\<close> exists only on a dictionary. The
  message about an invoice that was found shows its \<^verbatim>\<open>invoice_num\<close>.
\<close>

definition extract_step ::
  "pylib \<Rightarrow> (page_data \<Rightarrow> post_outcome) \<Rightarrow> pydict list \<Rightarrow> page_data \<Rightarrow> error + pydict list" where
  "extract_step lib post extracted_invoices page =
     bind_err (call_ollama lib (post page)) (\<lambda>invoice_data.
       case invoice_data of
         PDict d \<Rightarrow>
           if dict_get d ''type'' = PStr (lit ''invoice'')
           then bind_err (py_str lib (dict_get_default d ''invoice_num'' (PStr (lit ''N/A''))))
                  (\<lambda>shown. Inr (extracted_invoices @
                     [dict_set d (PStr (lit ''source_page'')) (PInt (int (page_num page)))]))
           else Inr extracted_invoices
       | _ \<Rightarrow> Inl AttributeError)"

fun extract_loop ::
  "pylib \<Rightarrow> (page_data \<Rightarrow> post_outcome) \<Rightarrow> pydict list \<Rightarrow> page_data list \<Rightarrow> error + pydict list" where
  "extract_loop lib post extracted_invoices [] = Inr extracted_invoices"
| "extract_loop lib post extracted_invoices (page # rest) =
     bind_err (extract_step lib post extracted_invoices page)
       (\<lambda>extracted. extract_loop lib post extracted rest)"

definition extract_invoices_from_pages ::
  "pylib \<Rightarrow> (page_data \<Rightarrow> post_outcome) \<Rightarrow> page_data list \<Rightarrow> error + pydict list" where
  "extract_invoices_from_pages lib post pages_data = extract_loop lib post [] pages_data"

section \<open>Stage 3.1: merge_multipage_invoices\<close>

definition group_key :: "pydict \<Rightarrow> pytuple" where
  "group_key invoice =
     [dict_get invoice ''invoice_num'', dict_get invoice ''vendor_name'',
      dict_get invoice ''invoice_date'']"

text \<open>
  \<^verbatim>\<open>grouped[key].append(inv)\<close> on the \<^verbatim>\<open>defaultdict(list)\<close>: the groups are kept in
  the order in which their keys were first seen.
\<close>

type_synonym groups = "(pytuple \<times> pydict list) list"

fun grouped_append :: "groups \<Rightarrow> pytuple \<Rightarrow> pydict \<Rightarrow> groups" where
  "grouped_append [] key invoice = [(key, [invoice])]"
| "grouped_append ((k, pages) # g) key invoice =
     (if tuple_eq k key then (k, pages @ [invoice]) # g
      else (k, pages) # grouped_append g key invoice)"

definition group_step :: "groups \<Rightarrow> pydict \<Rightarrow> error + groups" where
  "group_step grouped invoice =
     (if \<not> tuple_hashable (group_key invoice) then Inl TypeError
      else Inr (grouped_append grouped (group_key invoice) invoice))"

fun group_loop :: "groups \<Rightarrow> pydict list \<Rightarrow> error + groups" where
  "group_loop grouped [] = Inr grouped"
| "group_loop grouped (invoice # rest) =
     bind_err (group_step grouped invoice) (\<lambda>g. group_loop g rest)"

text \<open>
  \<^verbatim>\<open>d.update(x)\<close>: from a dictionary, entry by entry; from anything else, by iterating
  over it, each element being itself iterated and required to have exactly two members,
  a hashable key and a value.
\<close>

definition update_pair :: "pydict \<Rightarrow> pyval \<Rightarrow> error + pydict" where
  "update_pair d e =
     bind_err (py_iter e) (\<lambda>kv.
       case kv of
         [k, v] \<Rightarrow> if hashable k then Inr (dict_set d k v) else Inl TypeError
       | _ \<Rightarrow> Inl ValueError)"

fun update_pairs :: "pydict \<Rightarrow> pyval list \<Rightarrow> error + pydict" where
  "update_pairs d [] = Inr d"
| "update_pairs d (e # es) = bind_err (update_pair d e) (\<lambda>d'. update_pairs d' es)"

definition dict_update :: "pydict \<Rightarrow> pyval \<Rightarrow> error + pydict" where
  "dict_update d x =
     (case x of
        PDict other \<Rightarrow> Inr (fold (\<lambda>(k, v) d'. dict_set d' k v) other d)
      | _ \<Rightarrow> bind_err (py_iter x) (update_pairs d))"

text \<open>
  The state of the loop over the pages of one group: the merged record, and the two
  objects its \<^verbatim>\<open>line_items\<close> and \<^verbatim>\<open>tax_breakdown\<close> entries refer to, which the loop
  extends in place.
\<close>

record merge_state =
  merged :: pydict
  line_items :: "pyval list"
  tax_breakdown :: pydict

definition merge_page :: "merge_state \<Rightarrow> pydict \<Rightarrow> error + merge_state" where
  "merge_page st page_inv =
     bind_err (py_iter (dict_get_default page_inv ''line_items'' (PList []))) (\<lambda>items.
     bind_err
       (if truthy (dict_get page_inv ''tax_breakdown'')
        then dict_update (tax_breakdown st) (dict_get page_inv ''tax_breakdown'')
        else Inr (tax_breakdown st)) (\<lambda>tax.
     let m1 = (if truthy (dict_get page_inv ''subtotal'')
               then dict_set (merged st) (PStr (lit ''subtotal'')) (dict_get page_inv ''subtotal'')
               else merged st);
         m2 = (if truthy (dict_get page_inv ''total'')
               then dict_set m1 (PStr (lit ''total'')) (dict_get page_inv ''total'')
               else m1)
     in Inr \<lparr>merged = m2, line_items = line_items st @ items, tax_breakdown = tax\<rparr>))"

fun merge_pages :: "merge_state \<Rightarrow> pydict list \<Rightarrow> error + merge_state" where
  "merge_pages st [] = Inr st"
| "merge_pages st (page_inv # rest) =
     bind_err (merge_page st page_inv) (\<lambda>st'. merge_pages st' rest)"

definition item_key :: "pydict \<Rightarrow> pytuple" where
  "item_key item =
     [dict_get item ''description'', dict_get item ''hsn_sac'',
      dict_get item ''quantity'', dict_get item ''rate'']"

record unique_state =
  seen_items :: "pytuple list"
  unique_items :: "pyval list"

text \<open>\<^verbatim>\<open>item.get\<close> exists only on a dictionary; hashing the key may raise.\<close>

definition unique_step :: "unique_state \<Rightarrow> pyval \<Rightarrow> error + unique_state" where
  "unique_step st item =
     (case item of
        PDict d \<Rightarrow>
          if \<not> tuple_hashable (item_key d) then Inl TypeError
          else if \<not> set_contains (seen_items st) (item_key d) then
            Inr (st\<lparr>seen_items := seen_items st @ [item_key d],
                    unique_items := unique_items st @ [item]\<rparr>)
          else Inr st
      | _ \<Rightarrow> Inl AttributeError)"

fun unique_loop :: "unique_state \<Rightarrow> pyval list \<Rightarrow> error + unique_state" where
  "unique_loop st [] = Inr st"
| "unique_loop st (item # rest) = bind_err (unique_step st item) (\<lambda>st'. unique_loop st' rest)"

text \<open>The body of the loop over the groups. \<^verbatim>\<open>pages[0]\<close> raises on an empty list.\<close>

definition merge_group :: "pydict list \<Rightarrow> error + pydict" where
  "merge_group pages =
     (case pages of
        [] \<Rightarrow> Inl IndexError
      | first_page # _ \<Rightarrow>
          bind_err
            (merge_pages
               \<lparr>merged = dict_set (dict_set first_page (PStr (lit ''line_items'')) (PList []))
                            (PStr (lit ''tax_breakdown'')) (PDict []),
                line_items = [], tax_breakdown = []\<rparr>
               pages) (\<lambda>st.
          bind_err (unique_loop \<lparr>seen_items = [], unique_items = []\<rparr> (line_items st)) (\<lambda>u.
          Inr (dict_set
                 (dict_set (merged st) (PStr (lit ''tax_breakdown'')) (PDict (tax_breakdown st)))
                 (PStr (lit ''line_items'')) (PList (unique_items u))))))"

text \<open>
  The loop over the groups. A group of more than one page is announced by a message
  that shows its key, a tuple: building the text raises when a component of the key is
  an integer beyond the digit limit.
\<close>

fun merge_groups :: "pylib \<Rightarrow> pydict list \<Rightarrow> groups \<Rightarrow> error + pydict list" where
  "merge_groups lib merged_invoices [] = Inr merged_invoices"
| "merge_groups lib merged_invoices ((key, pages) # rest) =
     (if 1 < length pages \<and> list_ex (oversized (int_max_str_digits lib)) key
      then Inl ValueError
      else bind_err (merge_group pages)
             (\<lambda>m. merge_groups lib (merged_invoices @ [m]) rest))"

definition merge_multipage_invoices :: "pylib \<Rightarrow> pydict list \<Rightarrow> error + pydict list" where
  "merge_multipage_invoices lib extracted_invoices =
     bind_err (group_loop [] extracted_invoices) (merge_groups lib [])"

section \<open>Stage 3.2: deduplicate_invoices\<close>

definition dedup_key :: "pydict \<Rightarrow> pytuple" where
  "dedup_key invoice =
     [dict_get invoice ''invoice_num'', dict_get invoice ''vendor_name'',
      dict_get invoice ''invoice_date'', dict_get invoice ''total'']"

record dedup_state =
  seen_keys :: "pytuple list"
  deduped_invoices :: "pydict list"
  duplicates_count :: nat

text \<open>
  One pass of the loop body. Hashing the key raises when a component is unhashable; the
  message about a duplicate that was removed shows its \<^verbatim>\<open>invoice_num\<close> and
  \<^verbatim>\<open>vendor_name\<close>.
\<close>

definition dedup_step :: "pylib \<Rightarrow> dedup_state \<Rightarrow> pydict \<Rightarrow> error + dedup_state" where
  "dedup_step lib st invoice =
     (if \<not> tuple_hashable (dedup_key invoice) then Inl TypeError
      else if \<not> set_contains (seen_keys st) (dedup_key invoice) then
        Inr (st\<lparr>seen_keys := seen_keys st @ [dedup_key invoice],
                deduped_invoices := deduped_invoices st @ [invoice]\<rparr>)
      else
        bind_err (py_str lib (dict_get invoice ''invoice_num'')) (\<lambda>shown_num.
        bind_err (py_str lib (dict_get invoice ''vendor_name'')) (\<lambda>shown_vendor.
        Inr (st\<lparr>duplicates_count := duplicates_count st + 1\<rparr>))))"

fun dedup_loop :: "pylib \<Rightarrow> dedup_state \<Rightarrow> pydict list \<Rightarrow> error + dedup_state" where
  "dedup_loop lib st [] = Inr st"
| "dedup_loop lib st (invoice # rest) =
     bind_err (dedup_step lib st invoice) (\<lambda>st'. dedup_loop lib st' rest)"

definition dedup_init :: dedup_state where
  "dedup_init = \<lparr>seen_keys = [], deduped_invoices = [], duplicates_count = 0\<rparr>"

definition deduplicate_invoices :: "pylib \<Rightarrow> pydict list \<Rightarrow> error + pydict list" where
  "deduplicate_invoices lib merged_invoices =
     bind_err (dedup_loop lib dedup_init merged_invoices) (\<lambda>st. Inr (deduped_invoices st))"

section \<open>Stage 4: format_as_markdown\<close>

text \<open>\<^verbatim>\<open>s.replace(a, b)\<close> for single characters.\<close>

definition replace_char :: "nat \<Rightarrow> nat \<Rightarrow> pystr \<Rightarrow> pystr" where
  "replace_char a b s = map (\<lambda>c. if c = a then b else c) s"

text \<open>
  The \<^verbatim>\<open>try\<close>/\<^verbatim>\<open>except\<close> around every monetary field: the two-decimal rendering when
  the coercion succeeds, the plain text of the value otherwise. The fallback is outside
  the \<^verbatim>\<open>try\<close>, so an exception of the conversion to text is not caught. The summary
  fields are prefixed by the rupee sign (code point 8377).
\<close>

definition amount_text :: "pylib \<Rightarrow> pyval \<Rightarrow> error + pystr" where
  "amount_text lib v = (case money lib v of Some s \<Rightarrow> Inr s | None \<Rightarrow> py_str lib v)"

definition currency_text :: "pylib \<Rightarrow> pyval \<Rightarrow> error + pystr" where
  "currency_text lib v = bind_err (amount_text lib v) (\<lambda>s. Inr (8377 # s))"

text \<open>
  One row of the line-item table. \<^verbatim>\<open>item.get\<close> needs a dictionary and \<^verbatim>\<open>.replace\<close>
  a string. The code points 124, 47 and 10 are \<^verbatim>\<open>|\<close>, \<^verbatim>\<open>/\<close> and the newline. The
  amount is rendered first, then the f-string of the row renders the other cells.
\<close>

definition format_item :: "pylib \<Rightarrow> pyval \<Rightarrow> error + pystr" where
  "format_item lib item =
     (case item of
        PDict d \<Rightarrow>
          (case dict_get_default d ''description'' (PStr []) of
             PStr description \<Rightarrow>
               (let desc = take 50 (replace_char 124 47 description);
                    hsn = dict_get_default d ''hsn_sac'' (PStr []);
                    qty = dict_get_default d ''quantity'' (PInt 0);
                    rate = dict_get_default d ''rate'' (PInt 0);
                    unit = dict_get_default d ''unit'' (PStr []);
                    amount = dict_get_default d ''amount'' (PInt 0)
                in
                bind_err (amount_text lib amount) (\<lambda>amount_str.
                bind_err (py_str lib hsn) (\<lambda>hsn_text.
                bind_err (py_str lib qty) (\<lambda>qty_text.
                bind_err (py_str lib rate) (\<lambda>rate_text.
                bind_err (py_str lib unit) (\<lambda>unit_text.
                Inr (lit ''| '' @ desc @ lit '' | '' @ hsn_text @ lit '' | '' @
                     qty_text @ lit '' | '' @ rate_text @ lit '' | '' @
                     unit_text @ lit '' | '' @ amount_str @ lit '' |'' @ [10])))))))
           | _ \<Rightarrow> Inl AttributeError)
      | _ \<Rightarrow> Inl AttributeError)"

fun format_items :: "pylib \<Rightarrow> pystr \<Rightarrow> pyval list \<Rightarrow> error + pystr" where
  "format_items lib out [] = Inr out"
| "format_items lib out (item # rest) =
     bind_err (format_item lib item) (\<lambda>row. format_items lib (out @ row) rest)"

definition format_table :: "pylib \<Rightarrow> pyval \<Rightarrow> error + pystr" where
  "format_table lib items =
     (if truthy items then
        bind_err (py_iter items) (\<lambda>its.
        bind_err
          (format_items lib
             (lit ''| Description | HSN/SAC | Qty | Rate | Unit | Amount |'' @ [10] @
              lit ''|---|---|---|---|---|---|'' @ [10]) its) (\<lambda>rows.
        Inr (rows @ [10])))
      else Inr [])"

text \<open>
  One entry of the tax breakdown; an entry that is not a dictionary prints nothing. The
  amount is rendered first, then the f-string of the line upper-cases the tax code,
  which must be a string, and renders the rate.
\<close>

definition format_tax :: "pylib \<Rightarrow> pyval \<times> pyval \<Rightarrow> error + pystr" where
  "format_tax lib entry =
     (case snd entry of
        PDict tax_info \<Rightarrow>
          bind_err (currency_text lib (dict_get_default tax_info ''amount'' (PInt 0)))
            (\<lambda>amount_str.
          case fst entry of
            PStr tax_type \<Rightarrow>
              bind_err (py_str lib (dict_get_default tax_info ''rate'' (PStr (lit ''0%''))))
                (\<lambda>rate_text.
              Inr (lit ''**'' @ upper lib tax_type @ lit '' ('' @ rate_text @
                   lit '')**: '' @ amount_str @ [10]))
          | _ \<Rightarrow> Inl AttributeError)
      | _ \<Rightarrow> Inr [])"

fun format_taxes :: "pylib \<Rightarrow> pystr \<Rightarrow> pydict \<Rightarrow> error + pystr" where
  "format_taxes lib out [] = Inr out"
| "format_taxes lib out (entry # rest) =
     bind_err (format_tax lib entry) (\<lambda>line. format_taxes lib (out @ line) rest)"

text \<open>The three header lines of an invoice.\<close>

definition format_header :: "pylib \<Rightarrow> pydict \<Rightarrow> error + pystr" where
  "format_header lib invoice =
     (let na = PStr (lit ''N/A'') in
      bind_err (py_str lib (dict_get_default invoice ''invoice_num'' na)) (\<lambda>invoice_num.
      bind_err (py_str lib (dict_get_default invoice ''vendor_name'' na)) (\<lambda>vendor_name.
      bind_err (py_str lib (dict_get_default invoice ''invoice_date'' na)) (\<lambda>invoice_date.
      bind_err (py_str lib (dict_get_default invoice ''vendor_gstin'' na)) (\<lambda>vendor_gstin.
      bind_err (py_str lib (dict_get_default invoice ''buyer_name'' na)) (\<lambda>buyer_name.
      bind_err (py_str lib (dict_get_default invoice ''buyer_gstin'' na)) (\<lambda>buyer_gstin.
      Inr (lit ''## Invoice #'' @ invoice_num @ lit '' | '' @ vendor_name @
           lit '' | '' @ invoice_date @ [10, 10] @
           lit ''**Vendor**: '' @ vendor_name @ lit '' (GSTIN: '' @ vendor_gstin @
           lit '')'' @ [10] @
           lit ''**Buyer**: '' @ buyer_name @ lit '' (GSTIN: '' @ buyer_gstin @
           lit '')'' @ [10, 10]))))))))"

text \<open>
  The text one invoice adds to the report, built in the order of the source: header,
  table, subtotal, tax lines, total. \<^verbatim>\<open>.items()\<close> needs a dictionary.
\<close>

definition format_invoice :: "pylib \<Rightarrow> pydict \<Rightarrow> error + pystr" where
  "format_invoice lib invoice =
     bind_err (format_header lib invoice) (\<lambda>header.
     bind_err (format_table lib (dict_get_default invoice ''line_items'' (PList []))) (\<lambda>table.
     bind_err (currency_text lib (dict_get_default invoice ''subtotal'' (PInt 0)))
       (\<lambda>subtotal_str.
     bind_err
       (case dict_get_default invoice ''tax_breakdown'' (PDict []) of
          PDict taxes \<Rightarrow> format_taxes lib [] taxes
        | _ \<Rightarrow> Inl AttributeError) (\<lambda>tax_lines.
     bind_err (currency_text lib (dict_get_default invoice ''total'' (PInt 0)))
       (\<lambda>total_str.
     Inr (header @ table @
          lit ''**Subtotal**: '' @ subtotal_str @ [10] @
          tax_lines @
          [10] @ lit ''**Total**: '' @ total_str @ [10, 10] @
          lit ''---'' @ [10, 10]))))))"

fun format_loop :: "pylib \<Rightarrow> pystr \<Rightarrow> pydict list \<Rightarrow> error + pystr" where
  "format_loop lib markdown_output [] = Inr markdown_output"
| "format_loop lib markdown_output (invoice # rest) =
     bind_err (format_invoice lib invoice)
       (\<lambda>part. format_loop lib (markdown_output @ part) rest)"

definition format_as_markdown :: "pylib \<Rightarrow> pydict list \<Rightarrow> error + pystr" where
  "format_as_markdown lib deduped = format_loop lib [] deduped"

section \<open>The pipeline: process_invoice_pdf\<close>

record pipeline_result =
  invoices :: "pydict list"
  markdown :: pystr
  json :: pystr

text \<open>
  The stages in sequence. The JSON encoder converts every integer of the invoices to
  text, so it raises when one of them is beyond the digit limit.
\<close>

definition process_invoice_pdf ::
  "pylib \<Rightarrow> (page_data \<Rightarrow> post_outcome) \<Rightarrow> pdf_source \<Rightarrow> error + pipeline_result" where
  "process_invoice_pdf lib post pdf =
     bind_err (load_and_split_pdf pdf) (\<lambda>pages.
     bind_err (extract_invoices_from_pages lib post pages) (\<lambda>extracted.
     bind_err (merge_multipage_invoices lib extracted) (\<lambda>merged_invoices.
     bind_err (deduplicate_invoices lib merged_invoices) (\<lambda>deduped.
     bind_err (format_as_markdown lib deduped) (\<lambda>markdown_output.
     if list_ex (\<lambda>invoice. oversized (int_max_str_digits lib) (PDict invoice)) deduped
     then Inl ValueError
     else Inr \<lparr>invoices = deduped, markdown = markdown_output,
               json = json_dumps lib deduped\<rparr>)))))"

section \<open>First-wins selection\<close>

text \<open>
  The specification's wording of a first-wins deduplication: the element at position
  \<open>i\<close> is kept exactly when no earlier element has an equal key.
\<close>

definition first_occurrence :: "('a \<Rightarrow> pytuple) \<Rightarrow> 'a list \<Rightarrow> nat \<Rightarrow> bool" where
  "first_occurrence key xs i = (\<not> list_ex (\<lambda>j. tuple_eq (key (xs ! j)) (key (xs ! i))) [0..<i])"

definition keep_first :: "('a \<Rightarrow> pytuple) \<Rightarrow> 'a list \<Rightarrow> 'a list" where
  "keep_first key xs = map (\<lambda>i. xs ! i) (filter (first_occurrence key xs) [0..<length xs])"

text \<open>No two kept elements have equal keys.\<close>

definition pairwise_distinct_keys :: "('a \<Rightarrow> pytuple) \<Rightarrow> 'a list \<Rightarrow> bool" where
  "pairwise_distinct_keys key xs = sorted_wrt (\<lambda>a b. \<not> tuple_eq (key a) (key b)) xs"

text \<open>The elements that are dropped: those with the key of an earlier element.\<close>

definition dropped :: "('a \<Rightarrow> pytuple) \<Rightarrow> 'a list \<Rightarrow> 'a list" where
  "dropped key xs =
     map (\<lambda>i. xs ! i) (filter (\<lambda>i. \<not> first_occurrence key xs i) [0..<length xs])"

text \<open>
  A value is within the digit limit when converting it to text does not raise; the
  message about a removed duplicate can be built when the two fields it shows are.
\<close>

definition within_digit_limit :: "pylib \<Rightarrow> pyval \<Rightarrow> bool" where
  "within_digit_limit lib v = (\<not> oversized (int_max_str_digits lib) v)"

definition duplicate_message_ok :: "pylib \<Rightarrow> pydict \<Rightarrow> bool" where
  "duplicate_message_ok lib invoice =
     (within_digit_limit lib (dict_get invoice ''invoice_num'') \<and>
      within_digit_limit lib (dict_get invoice ''vendor_name''))"

section \<open>Notions used to state the properties of the merge\<close>

text \<open>
  The specification's wording of the grouping: one group per distinct key, in the order
  in which the keys are first seen, each group holding the pages with that key in input
  order.
\<close>

definition groups_of :: "pydict list \<Rightarrow> groups" where
  "groups_of X =
     map (\<lambda>p. (group_key p, filter (\<lambda>q. tuple_eq (group_key p) (group_key q)) X))
       (keep_first group_key X)"

text \<open>The line items a page contributes, and those of all pages of a group in page order.\<close>

definition page_items :: "pydict \<Rightarrow> pyval list" where
  "page_items p =
     (case py_iter (dict_get_default p ''line_items'' (PList [])) of
        Inr xs \<Rightarrow> xs
      | Inl e \<Rightarrow> [])"

definition group_items :: "pydict list \<Rightarrow> pyval list" where
  "group_items pages = concat (map page_items pages)"

text \<open>The structural key of a line item, and what makes a value a usable line item.\<close>

definition item_key_of :: "pyval \<Rightarrow> pytuple" where
  "item_key_of item = (case item of PDict d \<Rightarrow> item_key d | _ \<Rightarrow> [])"

definition item_ok :: "pyval \<Rightarrow> bool" where
  "item_ok item = (case item of PDict d \<Rightarrow> tuple_hashable (item_key d) | _ \<Rightarrow> False)"

text \<open>
  A page record of the specification's data model: its key fields are hashable values
  (strings, numbers or \<^verbatim>\<open>None\<close>) within the digit limit, \<^verbatim>\<open>line_items\<close> is absent or a
  list of line items, and \<^verbatim>\<open>tax_breakdown\<close> is absent, falsy or a dictionary.
\<close>

definition invoice_record :: "pylib \<Rightarrow> pydict \<Rightarrow> bool" where
  "invoice_record lib p =
     (tuple_hashable (group_key p) \<and>
      list_all (within_digit_limit lib) (group_key p) \<and>
      (case dict_get_default p ''line_items'' (PList []) of
         PList items \<Rightarrow> list_all item_ok items
       | _ \<Rightarrow> False) \<and>
      (case dict_get p ''tax_breakdown'' of
         PDict d \<Rightarrow> True
       | v \<Rightarrow> \<not> truthy v))"

text \<open>
  The value of a field on the last page of a group that supplies a truthy one, if any
  page does.
\<close>

definition last_supplied :: "string \<Rightarrow> pydict list \<Rightarrow> pyval option" where
  "last_supplied f pages =
     (case filter (\<lambda>p. truthy (dict_get p f)) pages of
        [] \<Rightarrow> None
      | ps \<Rightarrow> Some (dict_get (last ps) f))"

section \<open>Notions used to state the properties of the other stages\<close>

text \<open>
  The specification's wording of the loading stage: the pages that could be read, each
  with its 1-based position in the document, in document order.
\<close>

definition readable_pages :: "nat \<Rightarrow> page_source list \<Rightarrow> page_data list" where
  "readable_pages n pages =
     concat (map (\<lambda>(i, p).
        case p of
          RenderFailed \<Rightarrow> []
        | Rendered img txt \<Rightarrow>
            [\<lparr>page_num = i + 1, image_base64 = img,
              page_text = (case txt of None \<Rightarrow> [] | Some t \<Rightarrow> t)\<rparr>])
       (enumerate n pages))"





section \<open>Scenarios of the specification\<close>

text \<open>Scenario A: two pages of one invoice, the second one carrying the total.\<close>

definition scenario_a_page1 :: pydict where
  "scenario_a_page1 =
     [(pstr ''type'', pstr ''invoice''),
      (pstr ''invoice_num'', pstr ''INV-1''),
      (pstr ''vendor_name'', pstr ''Acme''),
      (pstr ''invoice_date'', pstr ''2024-01-01''),
      (pstr ''line_items'', PList
         [PDict [(pstr ''description'', pstr ''Widget''), (pstr ''hsn_sac'', pstr ''8471''),
                 (pstr ''quantity'', PInt 2), (pstr ''rate'', PInt 100),
                 (pstr ''unit'', pstr ''pcs''), (pstr ''amount'', PInt 200)],
          PDict [(pstr ''description'', pstr ''Gadget''), (pstr ''hsn_sac'', pstr ''8472''),
                 (pstr ''quantity'', PInt 1), (pstr ''rate'', PInt 300),
                 (pstr ''unit'', pstr ''pcs''), (pstr ''amount'', PInt 300)]]),
      (pstr ''total'', PInt 0),
      (pstr ''source_page'', PInt 1)]"

definition scenario_a_page2 :: pydict where
  "scenario_a_page2 =
     [(pstr ''type'', pstr ''invoice''),
      (pstr ''invoice_num'', pstr ''INV-1''),
      (pstr ''vendor_name'', pstr ''Acme''),
      (pstr ''invoice_date'', pstr ''2024-01-01''),
      (pstr ''line_items'', PList
         [PDict [(pstr ''description'', pstr ''Bolt''), (pstr ''hsn_sac'', pstr ''7318''),
                 (pstr ''quantity'', PInt 5), (pstr ''rate'', PInt 100),
                 (pstr ''unit'', pstr ''pcs''), (pstr ''amount'', PInt 500)]]),
      (pstr ''subtotal'', PInt 1000),
      (pstr ''total'', PInt 1180),
      (pstr ''source_page'', PInt 2)]"

text \<open>Further records used to exercise the theorems.\<close>

definition scenario_b_page :: pydict where
  "scenario_b_page =
     [(pstr ''type'', pstr ''invoice''),
      (pstr ''invoice_num'', pstr ''INV-2''),
      (pstr ''vendor_name'', pstr ''Acme''),
      (pstr ''invoice_date'', pstr ''2024-01-01''),
      (pstr ''total'', PInt 50),
      (pstr ''source_page'', PInt 2)]"

definition scenario_repeat_page2 :: pydict where
  "scenario_repeat_page2 =
     [(pstr ''type'', pstr ''invoice''),
      (pstr ''invoice_num'', pstr ''INV-1''),
      (pstr ''vendor_name'', pstr ''Acme''),
      (pstr ''invoice_date'', pstr ''2024-01-01''),
      (pstr ''line_items'', PList
         [PDict [(pstr ''description'', pstr ''Widget''), (pstr ''hsn_sac'', pstr ''8471''),
                 (pstr ''quantity'', PFloat 2), (pstr ''rate'', PInt 100),
                 (pstr ''unit'', pstr ''nos''), (pstr ''amount'', PInt 0)],
          PDict [(pstr ''description'', pstr ''Bolt''), (pstr ''hsn_sac'', pstr ''7318''),
                 (pstr ''quantity'', PInt 5), (pstr ''rate'', PInt 100),
                 (pstr ''unit'', pstr ''pcs''), (pstr ''amount'', PInt 500)]]),
      (pstr ''source_page'', PInt 2)]"

definition scenario_no_totals_page1 :: pydict where
  "scenario_no_totals_page1 =
     [(pstr ''type'', pstr ''invoice''),
      (pstr ''invoice_num'', pstr ''INV-7''),
      (pstr ''total'', PInt 0),
      (pstr ''source_page'', PInt 1)]"

definition scenario_no_totals_page2 :: pydict where
  "scenario_no_totals_page2 =
     [(pstr ''type'', pstr ''invoice''),
      (pstr ''invoice_num'', pstr ''INV-7''),
      (pstr ''subtotal'', PInt 0),
      (pstr ''total'', PStr []),
      (pstr ''source_page'', PInt 2)]"

text \<open>
  Scenario E: an invoice with monetary fields that are not numbers. \<open>scenario_lib\<close>
  is a behaviour of the library functions that agrees with Python on the values of the
  scenarios: the reply \<^verbatim>\<open>[]\<close> decodes to the empty list, other replies of the scenarios
  are not JSON, whole amounts below 1000 are rendered with two decimals, the other
  amounts of the scenarios cannot be coerced (strings that are not numbers, and an
  integer too large for a float), ASCII letters are upper-cased, and the digit limit is
  the default of 4300.
\<close>

definition scenario_lib :: pylib where
  "scenario_lib =
     \<lparr>json_loads = (\<lambda>s. if s = lit ''[]'' then Some (PList []) else None),
      repr_of = (\<lambda>v. []),
      money = (\<lambda>v. case v of
                       PInt n \<Rightarrow> if 0 \<le> n \<and> n < 1000 then Some (int_str n @ lit ''.00'') else None
                     | _ \<Rightarrow> None),
      upper = map (\<lambda>c. if 97 \<le> c \<and> c \<le> 122 then c - 32 else c),
      json_dumps = (\<lambda>x. []),
      int_max_str_digits = 4300\<rparr>"


section \<open>Properties\<close>

lemma lit_eq_iff [simp]: "lit a = lit b \<longleftrightarrow> a = b"
  by (simp add: lit_def inj_on_def)

lemma py_eq_refl [simp]: "py_eq a a"
  by (cases a) (simp_all add: py_eq_def)

lemma py_eq_sym: "py_eq a b \<Longrightarrow> py_eq b a"
  by (auto simp: py_eq_def split: option.splits)

lemma py_eq_trans: "py_eq a b \<Longrightarrow> py_eq b c \<Longrightarrow> py_eq a c"
  by (auto simp: py_eq_def split: option.splits)

lemma tuple_eq_refl [simp]: "tuple_eq t t"
  by (simp add: tuple_eq_def list_all2_refl)

lemma tuple_eq_sym: "tuple_eq s t \<Longrightarrow> tuple_eq t s"
  by (auto simp: tuple_eq_def list_all2_conv_all_nth py_eq_sym)

lemma tuple_eq_trans: "tuple_eq s t \<Longrightarrow> tuple_eq t u \<Longrightarrow> tuple_eq s u"
  unfolding tuple_eq_def using list_all2_trans [of py_eq py_eq py_eq] py_eq_trans by blast

subsection \<open>First-wins deduplication\<close>

lemma first_occurrence_append:
  "i < length xs \<Longrightarrow> first_occurrence key (xs @ ys) i = first_occurrence key xs i"
  by (simp add: first_occurrence_def list_ex_iff nth_append)

lemma first_occurrence_last:
  "first_occurrence key (xs @ [x]) (length xs) = (\<not> list_ex (\<lambda>y. tuple_eq (key y) (key x)) xs)"
proof -
  have "(\<exists>j<length xs. tuple_eq (key (xs ! j)) (key x)) = (\<exists>y\<in>set xs. tuple_eq (key y) (key x))"
    by (metis in_set_conv_nth)
  then show ?thesis
    by (simp add: first_occurrence_def list_ex_iff nth_append Bex_def)
qed

lemma keep_first_Nil [simp]: "keep_first key [] = []"
  by (simp add: keep_first_def)

lemma keep_first_snoc:
  "keep_first key (xs @ [x]) =
     keep_first key xs @ (if list_ex (\<lambda>y. tuple_eq (key y) (key x)) xs then [] else [x])"
proof -
  have "filter (first_occurrence key (xs @ [x])) [0..<length xs] =
        filter (first_occurrence key xs) [0..<length xs]"
    by (rule filter_cong) (simp_all add: first_occurrence_append)
  moreover have "map (\<lambda>i. (xs @ [x]) ! i) (filter (first_occurrence key xs) [0..<length xs]) =
        map (\<lambda>i. xs ! i) (filter (first_occurrence key xs) [0..<length xs])"
    by (rule map_cong) (simp_all add: nth_append)
  ultimately show ?thesis
    by (simp add: keep_first_def first_occurrence_last)
qed

lemma set_keep_first_subset: "set (keep_first key xs) \<subseteq> set xs"
  by (auto simp: keep_first_def)

lemma subseq_keep_first: "subseq (keep_first key xs) xs"
proof (induction xs rule: rev_induct)
  case Nil
  then show ?case by simp
next
  case (snoc x xs)
  have "subseq (keep_first key xs @ []) (xs @ [x])"
    by (rule list_emb_append_mono [OF snoc.IH]) simp
  moreover have "subseq (keep_first key xs @ [x]) (xs @ [x])"
    by (rule list_emb_append_mono [OF snoc.IH]) simp
  ultimately show ?case
    by (simp add: keep_first_snoc)
qed

lemma keep_first_covers:
  "list_ex (\<lambda>y. tuple_eq (key y) k) (keep_first key xs) = list_ex (\<lambda>y. tuple_eq (key y) k) xs"
proof (induction xs rule: rev_induct)
  case Nil
  then show ?case by simp
next
  case (snoc x xs)
  show ?case
  proof (cases "list_ex (\<lambda>y. tuple_eq (key y) (key x)) xs")
    case True
    then obtain y where y: "y \<in> set xs" "tuple_eq (key y) (key x)"
      by (auto simp: list_ex_iff)
    have "tuple_eq (key x) k \<Longrightarrow> list_ex (\<lambda>y. tuple_eq (key y) k) xs"
      using y tuple_eq_trans by (auto simp: list_ex_iff)
    with True snoc show ?thesis
      by (auto simp: keep_first_snoc)
  next
    case False
    with snoc show ?thesis
      by (auto simp: keep_first_snoc)
  qed
qed

lemma set_contains_keep_first:
  "set_contains (map key (keep_first key xs)) k = list_ex (\<lambda>y. tuple_eq (key y) k) xs"
  using keep_first_covers [of key k xs] by (simp add: set_contains_def list_ex_iff)

lemma keep_first_idem: "keep_first key (keep_first key xs) = keep_first key xs"
proof (induction xs rule: rev_induct)
  case Nil
  then show ?case by simp
next
  case (snoc x xs)
  then show ?case
    by (simp add: keep_first_snoc keep_first_covers)
qed

lemma length_keep_first: "length (keep_first key xs) \<le> length xs"
  by (simp add: keep_first_def) (metis diff_zero length_filter_le length_upt)

lemma pairwise_distinct_keys_snoc:
  "pairwise_distinct_keys key (xs @ [x]) =
     (pairwise_distinct_keys key xs \<and> \<not> list_ex (\<lambda>y. tuple_eq (key y) (key x)) xs)"
  by (simp add: pairwise_distinct_keys_def sorted_wrt_append list_ex_iff)

lemma pairwise_distinct_keep_first: "pairwise_distinct_keys key (keep_first key xs)"
proof (induction xs rule: rev_induct)
  case Nil
  then show ?case by (simp add: pairwise_distinct_keys_def)
next
  case (snoc x xs)
  then show ?case
    by (simp add: keep_first_snoc pairwise_distinct_keys_snoc keep_first_covers)
qed

lemma dropped_Nil [simp]: "dropped key [] = []"
  by (simp add: dropped_def)

lemma dropped_snoc:
  "dropped key (xs @ [x]) =
     dropped key xs @ (if list_ex (\<lambda>y. tuple_eq (key y) (key x)) xs then [x] else [])"
proof -
  have "filter (\<lambda>i. \<not> first_occurrence key (xs @ [x]) i) [0..<length xs] =
        filter (\<lambda>i. \<not> first_occurrence key xs i) [0..<length xs]"
    by (rule filter_cong) (simp_all add: first_occurrence_append)
  moreover have "map (\<lambda>i. (xs @ [x]) ! i) (filter (\<lambda>i. \<not> first_occurrence key xs i) [0..<length xs]) =
        map (\<lambda>i. xs ! i) (filter (\<lambda>i. \<not> first_occurrence key xs i) [0..<length xs])"
    by (rule map_cong) (simp_all add: nth_append)
  ultimately show ?thesis
    by (simp add: dropped_def first_occurrence_last)
qed

lemma dropped_keep_first [simp]: "dropped key (keep_first key xs) = []"
proof (induction xs rule: rev_induct)
  case Nil
  then show ?case by simp
next
  case (snoc x xs)
  then show ?case
    by (simp add: keep_first_snoc dropped_snoc keep_first_covers)
qed

lemma set_dropped_subset: "set (dropped key xs) \<subseteq> set xs"
  by (auto simp: dropped_def)

subsection \<open>The digit limit\<close>

lemma nat_digits_not_Nil [simp]: "nat_digits n \<noteq> []"
  by (subst nat_digits.simps) simp





lemma py_str_PStr [simp]: "py_str lib (PStr s) = Inr s"
  by (simp add: py_str_def)

lemma py_str_PNone [simp]: "py_str lib PNone = Inr (lit ''None'')"
  by (simp add: py_str_def)

subsection \<open>The deduplication loop\<close>

lemma bind_err_Inr_iff: "bind_err m f = Inr y \<longleftrightarrow> (\<exists>x. m = Inr x \<and> f x = Inr y)"
  by (cases m) simp_all

lemma bind_err_assoc: "bind_err (bind_err m f) g = bind_err m (\<lambda>x. bind_err (f x) g)"
  by (cases m) simp_all

lemma bind_err_return [simp]: "bind_err m Inr = m"
  by (cases m) simp_all

lemma dedup_loop_append:
  "dedup_loop lib st (xs @ ys) = bind_err (dedup_loop lib st xs) (\<lambda>st'. dedup_loop lib st' ys)"
  by (induction xs arbitrary: st) (simp_all add: bind_err_assoc)

lemma duplicate_message:
  "bind_err (py_str lib (dict_get x ''invoice_num'')) (\<lambda>shown_num.
     bind_err (py_str lib (dict_get x ''vendor_name'')) (\<lambda>shown_vendor. Inr st)) = Inr st' \<longleftrightarrow>
   duplicate_message_ok lib x \<and> st' = st"
  by (auto simp: duplicate_message_ok_def within_digit_limit_def py_str_def)

lemma dedup_step_Inr_iff:
  "dedup_step lib st x = Inr st' \<longleftrightarrow>
     tuple_hashable (dedup_key x) \<and>
     (if set_contains (seen_keys st) (dedup_key x)
      then duplicate_message_ok lib x \<and> st' = st\<lparr>duplicates_count := duplicates_count st + 1\<rparr>
      else st' = st\<lparr>seen_keys := seen_keys st @ [dedup_key x],
                     deduped_invoices := deduped_invoices st @ [x]\<rparr>)"
  unfolding dedup_step_def by (auto simp: duplicate_message)

lemma dedup_loop_snoc:
  "dedup_loop lib st0 (xs @ [x]) = Inr st \<longleftrightarrow>
     (\<exists>st1. dedup_loop lib st0 xs = Inr st1 \<and> dedup_step lib st1 x = Inr st)"
  by (simp add: dedup_loop_append bind_err_Inr_iff)

lemma dedup_loop_Inr_iff:
  "dedup_loop lib dedup_init xs = Inr st \<longleftrightarrow>
     (list_all (\<lambda>x. tuple_hashable (dedup_key x)) xs \<and>
      list_all (duplicate_message_ok lib) (dropped dedup_key xs) \<and>
      st = \<lparr>seen_keys = map dedup_key (keep_first dedup_key xs),
             deduped_invoices = keep_first dedup_key xs,
             duplicates_count = length xs - length (keep_first dedup_key xs)\<rparr>)"
proof (induction xs arbitrary: st rule: rev_induct)
  case Nil
  then show ?case by (auto simp: dedup_init_def)
next
  case (snoc x xs)
  let ?R = "\<lparr>seen_keys = map dedup_key (keep_first dedup_key xs),
             deduped_invoices = keep_first dedup_key xs,
             duplicates_count = length xs - length (keep_first dedup_key xs)\<rparr>"
  have l: "length (keep_first dedup_key xs) \<le> length xs"
    by (rule length_keep_first)
  have s: "dedup_loop lib dedup_init (xs @ [x]) = Inr st \<longleftrightarrow>
      list_all (\<lambda>x. tuple_hashable (dedup_key x)) xs \<and>
      list_all (duplicate_message_ok lib) (dropped dedup_key xs) \<and>
      dedup_step lib ?R x = Inr st"
    unfolding dedup_loop_snoc snoc.IH by blast
  show ?case
  proof (cases "list_ex (\<lambda>y. tuple_eq (dedup_key y) (dedup_key x)) xs")
    case True
    have "Suc (length xs - length (keep_first dedup_key xs)) =
        Suc (length xs) - length (keep_first dedup_key xs)"
      using l by simp
    with True show ?thesis
      unfolding s
      by (simp add: dedup_step_Inr_iff set_contains_keep_first keep_first_snoc dropped_snoc
          conj_ac)
  next
    case False
    then show ?thesis
      unfolding s
      by (simp add: dedup_step_Inr_iff set_contains_keep_first keep_first_snoc dropped_snoc
          conj_ac)
  qed
qed

lemma deduplicate_invoices_Inr_iff:
  "deduplicate_invoices lib xs = Inr out \<longleftrightarrow>
     (list_all (\<lambda>x. tuple_hashable (dedup_key x)) xs \<and>
      list_all (duplicate_message_ok lib) (dropped dedup_key xs) \<and>
      out = keep_first dedup_key xs)"
  by (auto simp: deduplicate_invoices_def bind_err_Inr_iff dedup_loop_Inr_iff)

lemma dedup_loop_TypeError:
  assumes "list_all (duplicate_message_ok lib) xs"
    and "\<not> list_all (\<lambda>x. tuple_hashable (dedup_key x)) xs"
  shows "dedup_loop lib dedup_init xs = Inl TypeError"
  using assms
proof (induction xs rule: rev_induct)
  case Nil
  then show ?case by simp
next
  case (snoc x xs)
  show ?case
  proof (cases "list_all (\<lambda>x. tuple_hashable (dedup_key x)) xs")
    case True
    have "list_all (duplicate_message_ok lib) (dropped dedup_key xs)"
      using snoc.prems(1) set_dropped_subset [of dedup_key xs] by (auto simp: list_all_iff)
    with True obtain st where "dedup_loop lib dedup_init xs = Inr st"
      by (simp add: dedup_loop_Inr_iff)
    with True snoc.prems(2) show ?thesis
      by (simp add: dedup_loop_append dedup_step_def)
  next
    case False
    with snoc show ?thesis
      by (simp add: dedup_loop_append)
  qed
qed

lemma list_all_keep_first: "list_all P xs \<Longrightarrow> list_all P (keep_first key xs)"
  using set_keep_first_subset [of key xs] by (auto simp: list_all_iff)

text \<open>
  Claim C5. Deduplication is idempotent: running \<^verbatim>\<open>deduplicate_invoices\<close> on its own
  result gives that result again. When the first run raises (a key holds a list or a
  dictionary, or the message about a duplicate cannot be built), so does the
  composition, with the same exception.
\<close>

theorem deduplicate_invoices_idempotent:
  "bind_err (deduplicate_invoices lib X) (deduplicate_invoices lib) = deduplicate_invoices lib X"
proof (cases "deduplicate_invoices lib X")
  case (Inl e)
  then show ?thesis by simp
next
  case (Inr out)
  then have "deduplicate_invoices lib out = Inr out"
    by (simp add: deduplicate_invoices_Inr_iff list_all_keep_first keep_first_idem)
  with Inr show ?thesis by simp
qed

text \<open>
  Claim C6. On every input whose keys \<^verbatim>\<open>(invoice_num, vendor_name, invoice_date,
  total)\<close> are hashable (strings, numbers, \<^verbatim>\<open>None\<close>: all the specification's data model
  allows) and whose dropped invoices have an \<^verbatim>\<open>invoice_num\<close> and a \<^verbatim>\<open>vendor_name\<close>
  within the digit limit, the loop ends normally, and \<^verbatim>\<open>deduplicate_invoices\<close> returns
  the invoices that are the first with their key, in input order: a subsequence of the
  input, no longer than it, holding no two invoices with equal keys; every dropped
  invoice has the key of an earlier one, and \<^verbatim>\<open>duplicates_count\<close> is the number of
  dropped invoices. The function returns on no other input, and what it returns is
  always this. Where the messages can be built and a key holds a list or a dictionary,
  hashing the key raises \<^verbatim>\<open>TypeError\<close>.
\<close>

theorem deduplicate_invoices_first_wins:
  "(list_all (\<lambda>x. tuple_hashable (dedup_key x)) X \<and>
    list_all (duplicate_message_ok lib) (dropped dedup_key X) \<longrightarrow>
      (\<exists>st. dedup_loop lib dedup_init X = Inr st \<and>
            deduplicate_invoices lib X = Inr (deduped_invoices st) \<and>
            deduped_invoices st = keep_first dedup_key X \<and>
            subseq (deduped_invoices st) X \<and>
            length (deduped_invoices st) \<le> length X \<and>
            pairwise_distinct_keys dedup_key (deduped_invoices st) \<and>
            duplicates_count st = length X - length (deduped_invoices st))) \<and>
   (\<forall>out. deduplicate_invoices lib X = Inr out \<longrightarrow>
      list_all (\<lambda>x. tuple_hashable (dedup_key x)) X \<and>
      list_all (duplicate_message_ok lib) (dropped dedup_key X) \<and>
      out = keep_first dedup_key X) \<and>
   (list_all (duplicate_message_ok lib) X \<and>
    \<not> list_all (\<lambda>x. tuple_hashable (dedup_key x)) X \<longrightarrow>
      deduplicate_invoices lib X = Inl TypeError)"
proof (intro conjI allI impI)
  assume "list_all (\<lambda>x. tuple_hashable (dedup_key x)) X \<and>
    list_all (duplicate_message_ok lib) (dropped dedup_key X)"
  then show "\<exists>st. dedup_loop lib dedup_init X = Inr st \<and>
            deduplicate_invoices lib X = Inr (deduped_invoices st) \<and>
            deduped_invoices st = keep_first dedup_key X \<and>
            subseq (deduped_invoices st) X \<and>
            length (deduped_invoices st) \<le> length X \<and>
            pairwise_distinct_keys dedup_key (deduped_invoices st) \<and>
            duplicates_count st = length X - length (deduped_invoices st)"
    by (simp add: dedup_loop_Inr_iff deduplicate_invoices_Inr_iff subseq_keep_first
        length_keep_first pairwise_distinct_keep_first)
next
  fix out assume o: "deduplicate_invoices lib X = Inr out"
  then show "list_all (\<lambda>x. tuple_hashable (dedup_key x)) X"
    and "list_all (duplicate_message_ok lib) (dropped dedup_key X)"
    and "out = keep_first dedup_key X"
    by (simp_all add: deduplicate_invoices_Inr_iff)
next
  assume "list_all (duplicate_message_ok lib) X \<and>
    \<not> list_all (\<lambda>x. tuple_hashable (dedup_key x)) X"
  then show "deduplicate_invoices lib X = Inl TypeError"
    by (simp add: deduplicate_invoices_def dedup_loop_TypeError)
qed

theorem deduplicate_invoices_first_wins_witness:
  "deduplicate_invoices scenario_lib
     [[(pstr ''invoice_num'', pstr ''INV-1''), (pstr ''total'', PInt 1180)],
      [(pstr ''invoice_num'', pstr ''INV-2''), (pstr ''total'', PInt 50)],
      [(pstr ''invoice_num'', pstr ''INV-1''), (pstr ''total'', PFloat 1180),
       (pstr ''vendor_gstin'', pstr ''X'')]]
   = Inr
     [[(pstr ''invoice_num'', pstr ''INV-1''), (pstr ''total'', PInt 1180)],
      [(pstr ''invoice_num'', pstr ''INV-2''), (pstr ''total'', PInt 50)]]
   \<and> duplicates_count (projr (dedup_loop scenario_lib dedup_init
     [[(pstr ''invoice_num'', pstr ''INV-1''), (pstr ''total'', PInt 1180)],
      [(pstr ''invoice_num'', pstr ''INV-2''), (pstr ''total'', PInt 50)],
      [(pstr ''invoice_num'', pstr ''INV-1''), (pstr ''total'', PFloat 1180),
       (pstr ''vendor_gstin'', pstr ''X'')]])) = 1"
proof -
  let ?X = "[[(pstr ''invoice_num'', pstr ''INV-1''), (pstr ''total'', PInt 1180)],
      [(pstr ''invoice_num'', pstr ''INV-2''), (pstr ''total'', PInt 50)],
      [(pstr ''invoice_num'', pstr ''INV-1''), (pstr ''total'', PFloat 1180),
       (pstr ''vendor_gstin'', pstr ''X'')]]"
  have h: "list_all (\<lambda>x. tuple_hashable (dedup_key x)) ?X"
    by (simp add: tuple_hashable_def dedup_key_def dict_get_def py_eq_def)
  have d: "list_all (duplicate_message_ok scenario_lib) (dropped dedup_key ?X)"
    by code_simp
  have k: "keep_first dedup_key ?X = [?X ! 0, ?X ! 1]"
    by (simp add: keep_first_def first_occurrence_def dedup_key_def dict_get_def py_eq_def
        tuple_eq_def upt_rec)
  from deduplicate_invoices_first_wins [of ?X scenario_lib] h d obtain st where
    "dedup_loop scenario_lib dedup_init ?X = Inr st"
    "deduplicate_invoices scenario_lib ?X = Inr (deduped_invoices st)"
    "deduped_invoices st = keep_first dedup_key ?X"
    "duplicates_count st = length ?X - length (deduped_invoices st)"
    by blast
  with k show ?thesis by simp
qed

section \<open>Properties of the merge\<close>

subsection \<open>Dictionaries\<close>

lemma py_eq_PStr [simp]: "py_eq (PStr a) q \<longleftrightarrow> q = PStr a"
  by (cases q) (auto simp: py_eq_def)

lemma py_eq_PStr' [simp]: "py_eq q (PStr a) \<longleftrightarrow> q = PStr a"
  by (cases q) (auto simp: py_eq_def)

lemma lookup_dict_set:
  "lookup (dict_set d k v) q = (if py_eq k q then Some v else lookup d q)"
proof (induction d)
  case Nil
  then show ?case by simp
next
  case (Cons e d)
  obtain k' v' where e: "e = (k', v')" by (cases e)
  show ?case
  proof (cases "py_eq k' k")
    case True
    then have "py_eq k' q \<longleftrightarrow> py_eq k q"
      using py_eq_trans py_eq_sym by blast
    with True e show ?thesis by simp
  next
    case False
    then have "py_eq k' q \<Longrightarrow> \<not> py_eq k q"
      using py_eq_trans py_eq_sym by blast
    with False e Cons show ?thesis by auto
  qed
qed

subsection \<open>Grouping\<close>

lemma group_loop_append:
  "group_loop g (xs @ ys) = bind_err (group_loop g xs) (\<lambda>g'. group_loop g' ys)"
  by (induction xs arbitrary: g) (simp_all add: bind_err_assoc)

lemma grouped_append_distinct:
  "pairwise_distinct_keys fst g \<Longrightarrow>
   grouped_append g k x =
     (if list_ex (\<lambda>e. tuple_eq (fst e) k) g
      then map (\<lambda>e. if tuple_eq (fst e) k then (fst e, snd e @ [x]) else e) g
      else g @ [(k, [x])])"
proof (induction g)
  case Nil
  then show ?case by simp
next
  case (Cons e g)
  obtain k' ps where e: "e = (k', ps)" by (cases e)
  from Cons.prems have d: "\<forall>b\<in>set g. \<not> tuple_eq k' (fst b)" "pairwise_distinct_keys fst g"
    by (simp_all add: pairwise_distinct_keys_def e)
  show ?case
  proof (cases "tuple_eq k' k")
    case True
    have "\<And>b. b \<in> set g \<Longrightarrow> \<not> tuple_eq (fst b) k"
      using d(1) True tuple_eq_trans tuple_eq_sym by blast
    then have "map (\<lambda>e. if tuple_eq (fst e) k then (fst e, snd e @ [x]) else e) g = g"
      by (simp add: map_idI)
    with True e show ?thesis by simp
  next
    case False
    with e Cons.IH [OF d(2)] show ?thesis by simp
  qed
qed

lemma pairwise_distinct_groups_of: "pairwise_distinct_keys fst (groups_of X)"
  using pairwise_distinct_keep_first [of group_key X]
  by (simp add: groups_of_def pairwise_distinct_keys_def sorted_wrt_map)

lemma groups_of_snoc:
  "grouped_append (groups_of X) (group_key x) x = groups_of (X @ [x])"
proof -
  note ga = grouped_append_distinct [OF pairwise_distinct_groups_of, of X "group_key x" x]
  have c: "list_ex (\<lambda>e. tuple_eq (fst e) (group_key x)) (groups_of X) =
           list_ex (\<lambda>y. tuple_eq (group_key y) (group_key x)) X"
    using keep_first_covers [of group_key "group_key x" X]
    by (simp add: groups_of_def list_ex_iff)
  show ?thesis
  proof (cases "list_ex (\<lambda>y. tuple_eq (group_key y) (group_key x)) X")
    case True
    have "map (\<lambda>e. if tuple_eq (fst e) (group_key x) then (fst e, snd e @ [x]) else e)
            (groups_of X) = groups_of (X @ [x])"
      using True by (simp add: groups_of_def keep_first_snoc)
    with True c ga show ?thesis by simp
  next
    case False
    from False have f: "filter (\<lambda>q. tuple_eq (group_key x) (group_key q)) X = []"
      using tuple_eq_sym by (auto simp: list_ex_iff filter_empty_conv)
    have "\<And>p. p \<in> set (keep_first group_key X) \<Longrightarrow> \<not> tuple_eq (group_key p) (group_key x)"
      using False set_keep_first_subset [of group_key X] by (auto simp: list_ex_iff)
    with False f have "groups_of X @ [(group_key x, [x])] = groups_of (X @ [x])"
      by (simp add: groups_of_def keep_first_snoc)
    with False c ga show ?thesis by simp
  qed
qed

lemma group_loop_char:
  "group_loop [] X =
     (if list_all (\<lambda>p. tuple_hashable (group_key p)) X then Inr (groups_of X)
      else Inl TypeError)"
proof (induction X rule: rev_induct)
  case Nil
  then show ?case by (simp add: groups_of_def)
next
  case (snoc x X)
  then show ?case
    by (simp add: group_loop_append group_step_def groups_of_snoc)
qed

subsection \<open>The loop over the groups\<close>

lemma merge_groups_Inr_iff:
  "merge_groups lib acc gs = Inr out \<longleftrightarrow>
     (\<exists>ms. out = acc @ ms \<and>
        list_all2 (\<lambda>g m.
           \<not> (1 < length (snd g) \<and> list_ex (oversized (int_max_str_digits lib)) (fst g)) \<and>
           merge_group (snd g) = Inr m) gs ms)"
proof (induction gs arbitrary: acc)
  case Nil
  then show ?case by auto
next
  case (Cons g gs)
  obtain k pages where g: "g = (k, pages)" by (cases g)
  show ?case
  proof (cases "merge_group pages")
    case (Inl e)
    with g show ?thesis by (simp add: list_all2_Cons1)
  next
    case (Inr m)
    with g Cons show ?thesis by (auto simp: list_all2_Cons1)
  qed
qed

lemma merge_multipage_invoices_Inr_iff:
  "merge_multipage_invoices lib X = Inr out \<longleftrightarrow>
     (list_all (\<lambda>p. tuple_hashable (group_key p)) X \<and>
      list_all2 (\<lambda>g m.
         \<not> (1 < length (snd g) \<and> list_ex (oversized (int_max_str_digits lib)) (fst g)) \<and>
         merge_group (snd g) = Inr m) (groups_of X) out)"
  by (simp add: merge_multipage_invoices_def group_loop_char merge_groups_Inr_iff)

lemma merge_multipage_invoices_Inr:
  assumes "merge_multipage_invoices lib X = Inr out"
  shows "list_all (\<lambda>p. tuple_hashable (group_key p)) X"
    and "list_all2 (\<lambda>g m. merge_group (snd g) = Inr m) (groups_of X) out"
proof -
  from assms show "list_all (\<lambda>p. tuple_hashable (group_key p)) X"
    by (simp add: merge_multipage_invoices_Inr_iff)
  from assms have "list_all2 (\<lambda>g m.
         \<not> (1 < length (snd g) \<and> list_ex (oversized (int_max_str_digits lib)) (fst g)) \<and>
         merge_group (snd g) = Inr m) (groups_of X) out"
    by (simp add: merge_multipage_invoices_Inr_iff)
  then show "list_all2 (\<lambda>g m. merge_group (snd g) = Inr m) (groups_of X) out"
    by (rule list_all2_mono) simp
qed

subsection \<open>The loop over the pages of a group\<close>

lemma last_supplied_Nil [simp]: "last_supplied f [] = None"
  by (simp add: last_supplied_def)

lemma last_supplied_Cons:
  "last_supplied f (p # ps) =
     (case last_supplied f ps of
        Some v \<Rightarrow> Some v
      | None \<Rightarrow> if truthy (dict_get p f) then Some (dict_get p f) else None)"
  by (auto simp: last_supplied_def split: list.splits)

lemma merge_page_Inr:
  assumes "merge_page st p = Inr st'"
  shows "line_items st' = line_items st @ page_items p"
    and "lookup (merged st') (PStr (lit ''total'')) =
           (if truthy (dict_get p ''total'') then Some (dict_get p ''total'')
            else lookup (merged st) (PStr (lit ''total'')))"
    and "lookup (merged st') (PStr (lit ''subtotal'')) =
           (if truthy (dict_get p ''subtotal'') then Some (dict_get p ''subtotal'')
            else lookup (merged st) (PStr (lit ''subtotal'')))"
    and "q \<noteq> PStr (lit ''subtotal'') \<Longrightarrow> q \<noteq> PStr (lit ''total'') \<Longrightarrow>
           lookup (merged st') q = lookup (merged st) q"
  using assms
  by (auto simp: merge_page_def bind_err_Inr_iff page_items_def lookup_dict_set Let_def
      split: if_splits)

lemma merge_pages_Inr:
  assumes "merge_pages st pages = Inr st'"
  shows "line_items st' = line_items st @ group_items pages"
    and "lookup (merged st') (PStr (lit ''total'')) =
           (case last_supplied ''total'' pages of
              Some v \<Rightarrow> Some v | None \<Rightarrow> lookup (merged st) (PStr (lit ''total'')))"
    and "lookup (merged st') (PStr (lit ''subtotal'')) =
           (case last_supplied ''subtotal'' pages of
              Some v \<Rightarrow> Some v | None \<Rightarrow> lookup (merged st) (PStr (lit ''subtotal'')))"
    and "q \<noteq> PStr (lit ''subtotal'') \<Longrightarrow> q \<noteq> PStr (lit ''total'') \<Longrightarrow>
           lookup (merged st') q = lookup (merged st) q"
  using assms
proof (induction pages arbitrary: st)
  case Nil
  {
    case 1 then show ?case by (simp add: group_items_def)
  next
    case 2 then show ?case by simp
  next
    case 3 then show ?case by simp
  next
    case 4 then show ?case by simp
  }
next
  case (Cons p pages)
  {
    case 1
    then obtain st1 where s: "merge_page st p = Inr st1" "merge_pages st1 pages = Inr st'"
      by (auto simp: bind_err_Inr_iff)
    with Cons(1) [OF s(2)] merge_page_Inr(1) [OF s(1)] show ?case
      by (simp add: group_items_def)
  next
    case 2
    then obtain st1 where s: "merge_page st p = Inr st1" "merge_pages st1 pages = Inr st'"
      by (auto simp: bind_err_Inr_iff)
    with Cons(2) [OF s(2)] merge_page_Inr(2) [OF s(1)] show ?case
      by (simp add: last_supplied_Cons split: option.splits)
  next
    case 3
    then obtain st1 where s: "merge_page st p = Inr st1" "merge_pages st1 pages = Inr st'"
      by (auto simp: bind_err_Inr_iff)
    with Cons(3) [OF s(2)] merge_page_Inr(3) [OF s(1)] show ?case
      by (simp add: last_supplied_Cons split: option.splits)
  next
    case 4
    then obtain st1 where s: "merge_page st p = Inr st1" "merge_pages st1 pages = Inr st'"
      by (auto simp: bind_err_Inr_iff)
    with Cons(4) [OF 4(1) 4(2) s(2)] merge_page_Inr(4) [OF s(1) 4(1) 4(2)] show ?case
      by simp
  }
qed

subsection \<open>The loop that removes repeated line items\<close>

lemma unique_loop_append:
  "unique_loop st (xs @ ys) = bind_err (unique_loop st xs) (\<lambda>st'. unique_loop st' ys)"
  by (induction xs arbitrary: st) (simp_all add: bind_err_assoc)

lemma unique_loop_Inr_iff:
  "unique_loop \<lparr>seen_items = [], unique_items = []\<rparr> items = Inr u \<longleftrightarrow>
     (list_all item_ok items \<and>
      u = \<lparr>seen_items = map item_key_of (keep_first item_key_of items),
            unique_items = keep_first item_key_of items\<rparr>)"
proof (induction items arbitrary: u rule: rev_induct)
  case Nil
  then show ?case by auto
next
  case (snoc x xs)
  show ?case
  proof (cases x)
    case (PDict d)
    with snoc show ?thesis
      by (auto simp: unique_loop_append bind_err_Inr_iff unique_step_def item_ok_def
          item_key_of_def keep_first_snoc set_contains_keep_first)
  qed (use snoc in \<open>auto simp: unique_loop_append bind_err_Inr_iff unique_step_def item_ok_def\<close>)
qed

subsection \<open>The merged record of one group\<close>

lemma merge_group_Inr:
  assumes "merge_group pages = Inr m"
  shows "pages \<noteq> []"
    and "list_all item_ok (group_items pages)"
    and "lookup m (PStr (lit ''line_items'')) =
           Some (PList (keep_first item_key_of (group_items pages)))"
    and "lookup m (PStr (lit ''total'')) =
           (case last_supplied ''total'' pages of
              Some v \<Rightarrow> Some v | None \<Rightarrow> lookup (hd pages) (PStr (lit ''total'')))"
    and "lookup m (PStr (lit ''subtotal'')) =
           (case last_supplied ''subtotal'' pages of
              Some v \<Rightarrow> Some v | None \<Rightarrow> lookup (hd pages) (PStr (lit ''subtotal'')))"
    and "q \<noteq> PStr (lit ''subtotal'') \<Longrightarrow> q \<noteq> PStr (lit ''total'') \<Longrightarrow>
         q \<noteq> PStr (lit ''line_items'') \<Longrightarrow> q \<noteq> PStr (lit ''tax_breakdown'') \<Longrightarrow>
           lookup m q = lookup (hd pages) q"
proof -
  from assms obtain first_page rest where p: "pages = first_page # rest"
    by (cases pages) (simp_all add: merge_group_def)
  let ?st0 = "\<lparr>merged = dict_set (dict_set first_page (PStr (lit ''line_items'')) (PList []))
                            (PStr (lit ''tax_breakdown'')) (PDict []),
                line_items = [], tax_breakdown = []\<rparr>"
  from assms p obtain st u where
    st: "merge_pages ?st0 pages = Inr st" and
    u: "unique_loop \<lparr>seen_items = [], unique_items = []\<rparr> (line_items st) = Inr u" and
    m: "m = dict_set
                 (dict_set (merged st) (PStr (lit ''tax_breakdown'')) (PDict (tax_breakdown st)))
                 (PStr (lit ''line_items'')) (PList (unique_items u))"
    by (auto simp: merge_group_def bind_err_Inr_iff)
  note mp = merge_pages_Inr [OF st]
  from mp(1) have li: "line_items st = group_items pages" by simp
  show "pages \<noteq> []" using p by simp
  show "list_all item_ok (group_items pages)"
    using u li by (simp add: unique_loop_Inr_iff)
  show "lookup m (PStr (lit ''line_items'')) =
           Some (PList (keep_first item_key_of (group_items pages)))"
    using u li m by (simp add: unique_loop_Inr_iff lookup_dict_set)
  show "lookup m (PStr (lit ''total'')) =
           (case last_supplied ''total'' pages of
              Some v \<Rightarrow> Some v | None \<Rightarrow> lookup (hd pages) (PStr (lit ''total'')))"
    using mp(2) m p by (simp add: lookup_dict_set split: option.splits)
  show "lookup m (PStr (lit ''subtotal'')) =
           (case last_supplied ''subtotal'' pages of
              Some v \<Rightarrow> Some v | None \<Rightarrow> lookup (hd pages) (PStr (lit ''subtotal'')))"
    using mp(3) m p by (simp add: lookup_dict_set split: option.splits)
  show "lookup m q = lookup (hd pages) q"
    if "q \<noteq> PStr (lit ''subtotal'')" "q \<noteq> PStr (lit ''total'')"
       "q \<noteq> PStr (lit ''line_items'')" "q \<noteq> PStr (lit ''tax_breakdown'')"
    using mp(4) [OF that(1,2)] m p that by (auto simp: lookup_dict_set)
qed

subsection \<open>Records of the data model are merged without an exception\<close>

lemma page_items_record: "invoice_record lib p \<Longrightarrow> list_all item_ok (page_items p)"
  by (auto simp: invoice_record_def page_items_def split: pyval.splits)

lemma group_items_record: "list_all (invoice_record lib) pages \<Longrightarrow> list_all item_ok (group_items pages)"
  by (induction pages) (auto simp: group_items_def dest: page_items_record)

lemma merge_page_record: "invoice_record lib p \<Longrightarrow> \<exists>st'. merge_page st p = Inr st'"
  by (auto simp: invoice_record_def merge_page_def dict_update_def Let_def split: pyval.splits)

lemma merge_pages_record: "list_all (invoice_record lib) pages \<Longrightarrow> \<exists>st'. merge_pages st pages = Inr st'"
proof (induction pages arbitrary: st)
  case Nil
  then show ?case by simp
next
  case (Cons p pages)
  then obtain st1 where "merge_page st p = Inr st1"
    using merge_page_record [of lib p st] by auto
  with Cons show ?case by simp
qed

lemma merge_group_record:
  assumes "list_all (invoice_record lib) pages" "pages \<noteq> []"
  shows "\<exists>m. merge_group pages = Inr m"
proof -
  from assms(2) obtain first_page rest where p: "pages = first_page # rest"
    by (cases pages) auto
  let ?st0 = "\<lparr>merged = dict_set (dict_set first_page (PStr (lit ''line_items'')) (PList []))
                            (PStr (lit ''tax_breakdown'')) (PDict []),
                line_items = [], tax_breakdown = []\<rparr>"
  obtain st where st: "merge_pages ?st0 pages = Inr st"
    using merge_pages_record [OF assms(1)] by blast
  from merge_pages_Inr(1) [OF st] have "line_items st = group_items pages" by simp
  then have "\<exists>u. unique_loop \<lparr>seen_items = [], unique_items = []\<rparr> (line_items st) = Inr u"
    using group_items_record [OF assms(1)] by (simp add: unique_loop_Inr_iff)
  with st p show ?thesis
    by (auto simp: merge_group_def)
qed

lemma list_all2_exists: "list_all (\<lambda>g. \<exists>m. P g m) gs \<Longrightarrow> \<exists>ms. list_all2 P gs ms"
proof (induction gs)
  case Nil
  then show ?case by simp
next
  case (Cons g gs)
  then obtain m ms where "P g m" "list_all2 P gs ms" by auto
  then have "list_all2 P (g # gs) (m # ms)" by simp
  then show ?case by blast
qed

lemma groups_of_pages:
  "g \<in> set (groups_of X) \<Longrightarrow> snd g \<noteq> [] \<and> set (snd g) \<subseteq> set X"
proof -
  assume "g \<in> set (groups_of X)"
  then obtain p where p: "p \<in> set (keep_first group_key X)"
    "g = (group_key p, filter (\<lambda>q. tuple_eq (group_key p) (group_key q)) X)"
    by (auto simp: groups_of_def)
  from p(1) have "p \<in> set X"
    using set_keep_first_subset [of group_key X] by auto
  then have "p \<in> set (snd g)"
    using p(2) by simp
  then have "snd g \<noteq> []" by auto
  with p(2) show ?thesis by auto
qed

lemma merge_multipage_invoices_record:
  assumes "list_all (invoice_record lib) X"
  shows "\<exists>out. merge_multipage_invoices lib X = Inr out"
proof -
  have h: "list_all (\<lambda>p. tuple_hashable (group_key p)) X"
    using assms by (simp add: list_all_iff invoice_record_def)
  have "list_all (\<lambda>g. \<exists>m.
          \<not> (1 < length (snd g) \<and> list_ex (oversized (int_max_str_digits lib)) (fst g)) \<and>
          merge_group (snd g) = Inr m) (groups_of X)"
    unfolding list_all_iff
  proof
    fix g assume g: "g \<in> set (groups_of X)"
    then have "snd g \<noteq> []" "list_all (invoice_record lib) (snd g)"
      using groups_of_pages [of g X] assms by (auto simp: list_all_iff)
    then obtain m where m: "merge_group (snd g) = Inr m"
      using merge_group_record by blast
    from g obtain p where "p \<in> set X" "fst g = group_key p"
      using set_keep_first_subset [of group_key X] by (auto simp: groups_of_def)
    with assms have "list_all (within_digit_limit lib) (fst g)"
      by (auto simp: list_all_iff invoice_record_def)
    then have "\<not> list_ex (oversized (int_max_str_digits lib)) (fst g)"
      by (auto simp: list_all_iff list_ex_iff within_digit_limit_def)
    with m show "\<exists>m.
          \<not> (1 < length (snd g) \<and> list_ex (oversized (int_max_str_digits lib)) (fst g)) \<and>
          merge_group (snd g) = Inr m"
      by blast
  qed
  from list_all2_exists [OF this] h show ?thesis
    by (simp add: merge_multipage_invoices_Inr_iff)
qed

subsection \<open>The groups partition the input\<close>

lemma one_match:
  "pairwise_distinct_keys key xs \<Longrightarrow> list_ex (\<lambda>y. tuple_eq (key y) k) xs \<Longrightarrow>
   length (filter (\<lambda>y. tuple_eq (key y) k) xs) = 1"
proof (induction xs)
  case Nil
  then show ?case by simp
next
  case (Cons x xs)
  from Cons.prems(1) have d: "\<forall>y\<in>set xs. \<not> tuple_eq (key x) (key y)"
    "pairwise_distinct_keys key xs"
    by (simp_all add: pairwise_distinct_keys_def)
  show ?case
  proof (cases "tuple_eq (key x) k")
    case True
    have "\<And>y. y \<in> set xs \<Longrightarrow> \<not> tuple_eq (key y) k"
      using d(1) True tuple_eq_trans tuple_eq_sym by blast
    then have "filter (\<lambda>y. tuple_eq (key y) k) xs = []"
      by (simp add: filter_empty_conv)
    with True show ?thesis by simp
  next
    case False
    with Cons d(2) show ?thesis by simp
  qed
qed

lemma groups_of_one_group:
  assumes "p \<in> set X"
  shows "length (filter (\<lambda>g. tuple_eq (fst g) (group_key p)) (groups_of X)) = 1"
proof -
  have "list_ex (\<lambda>y. tuple_eq (group_key y) (group_key p)) X"
    using assms by (auto simp: list_ex_iff intro!: bexI [of _ p])
  then have "list_ex (\<lambda>g. tuple_eq (fst g) (group_key p)) (groups_of X)"
    using keep_first_covers [of group_key "group_key p" X]
    by (simp add: groups_of_def list_ex_iff)
  with pairwise_distinct_groups_of show ?thesis
    by (rule one_match)
qed

lemma mset_grouped_append:
  "mset (concat (map snd (grouped_append g k x))) = mset (concat (map snd g)) + {#x#}"
  by (induction g k x rule: grouped_append.induct) simp_all

lemma mset_groups_of: "mset (concat (map snd (groups_of X))) = mset X"
proof (induction X rule: rev_induct)
  case Nil
  then show ?case by (simp add: groups_of_def)
next
  case (snoc x X)
  have "mset (concat (map snd (groups_of (X @ [x])))) =
        mset (concat (map snd (groups_of X))) + {#x#}"
    by (simp only: groups_of_snoc [symmetric] mset_grouped_append)
  with snoc show ?case by simp
qed

lemma groups_of_filter:
  "list_all (\<lambda>g. snd g = filter (\<lambda>p. tuple_eq (fst g) (group_key p)) X) (groups_of X)"
  by (simp add: groups_of_def list_all_iff)

lemma merge_group_key:
  assumes "merge_group pages = Inr m"
  shows "group_key m = group_key (hd pages)"
  using merge_group_Inr(6) [OF assms]
  by (simp add: group_key_def dict_get_def)

lemma groups_of_hd:
  assumes "g \<in> set (groups_of X)"
  shows "tuple_eq (fst g) (group_key (hd (snd g)))"
proof -
  have "snd g \<noteq> []"
    using groups_of_pages [OF assms] by simp
  then have "hd (snd g) \<in> set (snd g)" by simp
  moreover have "snd g = filter (\<lambda>p. tuple_eq (fst g) (group_key p)) X"
    using groups_of_filter [of X] assms by (simp add: list_all_iff)
  ultimately have "hd (snd g) \<in> set (filter (\<lambda>p. tuple_eq (fst g) (group_key p)) X)"
    by simp
  then show ?thesis by simp
qed

text \<open>
  Claim C1, as amended. \<^verbatim>\<open>merge_multipage_invoices\<close> groups the page records by the
  key \<^verbatim>\<open>(invoice_num, vendor_name, invoice_date)\<close>, each component read with \<^verbatim>\<open>.get\<close>
  and compared with Python's equality: a missing field reads as \<^verbatim>\<open>None\<close>, which is
  not equal to the empty string. The function returns on every sequence of page records
  of the data model whose key fields are within the digit limit (the message about a
  group of several pages shows its key); and whenever it returns, the groups it has
  built are \<open>groups_of X\<close>: one group per distinct key in first-seen key order, no
  two groups with equal keys, every group holding exactly the input records with its key
  in input order, every input record's key matching exactly one group, the groups
  together holding each input record once; and the output has one merged record per
  group, in the order of the groups, carrying the key of the first page of its group.
\<close>

theorem merge_multipage_invoices_groups:
  "(list_all (invoice_record lib) X \<longrightarrow> (\<exists>out. merge_multipage_invoices lib X = Inr out)) \<and>
   (\<forall>out. merge_multipage_invoices lib X = Inr out \<longrightarrow>
      group_loop [] X = Inr (groups_of X) \<and>
      map fst (groups_of X) = map group_key (keep_first group_key X) \<and>
      pairwise_distinct_keys fst (groups_of X) \<and>
      list_all (\<lambda>g. snd g = filter (\<lambda>p. tuple_eq (fst g) (group_key p)) X) (groups_of X) \<and>
      list_all (\<lambda>p. length (filter (\<lambda>g. tuple_eq (fst g) (group_key p)) (groups_of X)) = 1) X \<and>
      mset (concat (map snd (groups_of X))) = mset X \<and>
      list_all2 (\<lambda>g m. snd g \<noteq> [] \<and> merge_group (snd g) = Inr m \<and>
                   group_key m = group_key (hd (snd g)) \<and>
                   tuple_eq (fst g) (group_key m)) (groups_of X) out)"
proof (intro conjI allI impI)
  assume "list_all (invoice_record lib) X"
  then show "\<exists>out. merge_multipage_invoices lib X = Inr out"
    by (rule merge_multipage_invoices_record)
next
  fix out assume "merge_multipage_invoices lib X = Inr out"
  then have h: "list_all (\<lambda>p. tuple_hashable (group_key p)) X"
    and l: "list_all2 (\<lambda>g m. merge_group (snd g) = Inr m) (groups_of X) out"
    by (rule merge_multipage_invoices_Inr)+
  show "group_loop [] X = Inr (groups_of X)"
    using h by (simp add: group_loop_char)
  show "map fst (groups_of X) = map group_key (keep_first group_key X)"
    by (simp add: groups_of_def comp_def)
  show "pairwise_distinct_keys fst (groups_of X)"
    by (rule pairwise_distinct_groups_of)
  show "list_all (\<lambda>g. snd g = filter (\<lambda>p. tuple_eq (fst g) (group_key p)) X) (groups_of X)"
    by (rule groups_of_filter)
  show "list_all (\<lambda>p. length (filter (\<lambda>g. tuple_eq (fst g) (group_key p)) (groups_of X)) = 1) X"
    by (simp add: list_all_iff groups_of_one_group)
  show "mset (concat (map snd (groups_of X))) = mset X"
    by (rule mset_groups_of)
  show "list_all2 (\<lambda>g m. snd g \<noteq> [] \<and> merge_group (snd g) = Inr m \<and>
                   group_key m = group_key (hd (snd g)) \<and>
                   tuple_eq (fst g) (group_key m)) (groups_of X) out"
    using l
  proof (rule list.rel_mono_strong)
    fix g m assume "g \<in> set (groups_of X)" "merge_group (snd g) = Inr m"
    then show "snd g \<noteq> [] \<and> merge_group (snd g) = Inr m \<and>
                   group_key m = group_key (hd (snd g)) \<and>
                   tuple_eq (fst g) (group_key m)"
      using groups_of_hd [of g X] merge_group_key [of "snd g" m] groups_of_pages [of g X]
      by simp
  qed
qed

text \<open>
  The claim as the specification states it, with a missing key field and an empty one
  treated as equal, fails: two pages that differ only in that one has no
  \<^verbatim>\<open>invoice_num\<close> and the other has the empty string are not merged.
\<close>

theorem merge_missing_is_not_empty_counterexample:
  "merge_multipage_invoices scenario_lib
     [[(pstr ''type'', pstr ''invoice''), (pstr ''invoice_num'', PStr []),
       (pstr ''vendor_name'', pstr ''Acme''), (pstr ''invoice_date'', pstr ''2024-01-01'')],
      [(pstr ''type'', pstr ''invoice''),
       (pstr ''vendor_name'', pstr ''Acme''), (pstr ''invoice_date'', pstr ''2024-01-01'')]]
   = Inr
     [[(pstr ''type'', pstr ''invoice''), (pstr ''invoice_num'', PStr []),
       (pstr ''vendor_name'', pstr ''Acme''), (pstr ''invoice_date'', pstr ''2024-01-01''),
       (pstr ''line_items'', PList []), (pstr ''tax_breakdown'', PDict [])],
      [(pstr ''type'', pstr ''invoice''),
       (pstr ''vendor_name'', pstr ''Acme''), (pstr ''invoice_date'', pstr ''2024-01-01''),
       (pstr ''line_items'', PList []), (pstr ''tax_breakdown'', PDict [])]]"
  by code_simp

theorem merge_multipage_invoices_groups_witness:
  "list_all (invoice_record scenario_lib) [scenario_a_page1, scenario_b_page, scenario_a_page2] \<and>
   group_loop [] [scenario_a_page1, scenario_b_page, scenario_a_page2] =
     Inr [([pstr ''INV-1'', pstr ''Acme'', pstr ''2024-01-01''],
           [scenario_a_page1, scenario_a_page2]),
          ([pstr ''INV-2'', pstr ''Acme'', pstr ''2024-01-01''], [scenario_b_page])]"
proof -
  let ?X = "[scenario_a_page1, scenario_b_page, scenario_a_page2]"
  have r: "list_all (invoice_record scenario_lib) ?X"
    by code_simp
  with merge_multipage_invoices_groups [of scenario_lib ?X] obtain out where
    "merge_multipage_invoices scenario_lib ?X = Inr out" by blast
  with merge_multipage_invoices_groups [of scenario_lib ?X] have "group_loop [] ?X = Inr (groups_of ?X)"
    by blast
  moreover have "groups_of ?X =
     [([pstr ''INV-1'', pstr ''Acme'', pstr ''2024-01-01''],
           [scenario_a_page1, scenario_a_page2]),
          ([pstr ''INV-2'', pstr ''Acme'', pstr ''2024-01-01''], [scenario_b_page])]"
    by code_simp
  ultimately show ?thesis using r by simp
qed

text \<open>
  Claim C3. In the loop over the pages of a group, a page overwrites \<^verbatim>\<open>subtotal\<close>
  (\<^verbatim>\<open>total\<close>) of the merged record exactly when its own value is truthy (not \<^verbatim>\<open>None\<close>,
  zero or empty), and leaves the entry as it is otherwise. So in every merged record the
  function returns, a field that some page of the group supplies holds the value of the
  last such page. The function returns on every sequence of page records of the data
  model whose key fields are within the digit limit. Scenario A of the specification is
  the witness.
\<close>

theorem merge_last_supplied_wins:
  "(\<forall>st p st'. merge_page st p = Inr st' \<longrightarrow>
      lookup (merged st') (pstr ''total'') =
        (if truthy (dict_get p ''total'') then Some (dict_get p ''total'')
         else lookup (merged st) (pstr ''total'')) \<and>
      lookup (merged st') (pstr ''subtotal'') =
        (if truthy (dict_get p ''subtotal'') then Some (dict_get p ''subtotal'')
         else lookup (merged st) (pstr ''subtotal''))) \<and>
   (list_all (invoice_record lib) X \<longrightarrow> (\<exists>out. merge_multipage_invoices lib X = Inr out)) \<and>
   (\<forall>out. merge_multipage_invoices lib X = Inr out \<longrightarrow>
      list_all2 (\<lambda>g m.
         (\<forall>v. last_supplied ''total'' (snd g) = Some v \<longrightarrow>
              lookup m (pstr ''total'') = Some v) \<and>
         (\<forall>v. last_supplied ''subtotal'' (snd g) = Some v \<longrightarrow>
              lookup m (pstr ''subtotal'') = Some v)) (groups_of X) out)"
proof (intro conjI allI impI)
  fix st p st' assume m: "merge_page st p = Inr st'"
  show "lookup (merged st') (pstr ''total'') =
        (if truthy (dict_get p ''total'') then Some (dict_get p ''total'')
         else lookup (merged st) (pstr ''total''))"
    by (rule merge_page_Inr(2) [OF m])
  show "lookup (merged st') (pstr ''subtotal'') =
        (if truthy (dict_get p ''subtotal'') then Some (dict_get p ''subtotal'')
         else lookup (merged st) (pstr ''subtotal''))"
    by (rule merge_page_Inr(3) [OF m])
next
  assume "list_all (invoice_record lib) X"
  then show "\<exists>out. merge_multipage_invoices lib X = Inr out"
    by (rule merge_multipage_invoices_record)
next
  fix out assume "merge_multipage_invoices lib X = Inr out"
  then have "list_all2 (\<lambda>g m. merge_group (snd g) = Inr m) (groups_of X) out"
    by (rule merge_multipage_invoices_Inr(2))
  then show "list_all2 (\<lambda>g m.
         (\<forall>v. last_supplied ''total'' (snd g) = Some v \<longrightarrow>
              lookup m (pstr ''total'') = Some v) \<and>
         (\<forall>v. last_supplied ''subtotal'' (snd g) = Some v \<longrightarrow>
              lookup m (pstr ''subtotal'') = Some v)) (groups_of X) out"
  proof (rule list_all2_mono)
    fix g :: "pytuple \<times> pydict list" and m
    assume "merge_group (snd g) = Inr m"
    from merge_group_Inr(4,5) [OF this]
    show "(\<forall>v. last_supplied ''total'' (snd g) = Some v \<longrightarrow>
              lookup m (pstr ''total'') = Some v) \<and>
         (\<forall>v. last_supplied ''subtotal'' (snd g) = Some v \<longrightarrow>
              lookup m (pstr ''subtotal'') = Some v)"
      by simp
  qed
qed

theorem merge_last_supplied_wins_witness:
  "merge_multipage_invoices scenario_lib [scenario_a_page1, scenario_a_page2] = Inr [
     [(pstr ''type'', pstr ''invoice''),
      (pstr ''invoice_num'', pstr ''INV-1''),
      (pstr ''vendor_name'', pstr ''Acme''),
      (pstr ''invoice_date'', pstr ''2024-01-01''),
      (pstr ''line_items'', PList
         [PDict [(pstr ''description'', pstr ''Widget''), (pstr ''hsn_sac'', pstr ''8471''),
                 (pstr ''quantity'', PInt 2), (pstr ''rate'', PInt 100),
                 (pstr ''unit'', pstr ''pcs''), (pstr ''amount'', PInt 200)],
          PDict [(pstr ''description'', pstr ''Gadget''), (pstr ''hsn_sac'', pstr ''8472''),
                 (pstr ''quantity'', PInt 1), (pstr ''rate'', PInt 300),
                 (pstr ''unit'', pstr ''pcs''), (pstr ''amount'', PInt 300)],
          PDict [(pstr ''description'', pstr ''Bolt''), (pstr ''hsn_sac'', pstr ''7318''),
                 (pstr ''quantity'', PInt 5), (pstr ''rate'', PInt 100),
                 (pstr ''unit'', pstr ''pcs''), (pstr ''amount'', PInt 500)]]),
      (pstr ''total'', PInt 1180),
      (pstr ''source_page'', PInt 1),
      (pstr ''tax_breakdown'', PDict []),
      (pstr ''subtotal'', PInt 1000)]] \<and>
   last_supplied ''total'' [scenario_a_page1, scenario_a_page2] = Some (PInt 1180) \<and>
   lookup (hd (projr (merge_multipage_invoices scenario_lib [scenario_a_page1, scenario_a_page2])))
     (pstr ''total'') = Some (PInt 1180)"
proof -
  let ?X = "[scenario_a_page1, scenario_a_page2]"
  let ?M = "[(pstr ''type'', pstr ''invoice''),
      (pstr ''invoice_num'', pstr ''INV-1''),
      (pstr ''vendor_name'', pstr ''Acme''),
      (pstr ''invoice_date'', pstr ''2024-01-01''),
      (pstr ''line_items'', PList
         [PDict [(pstr ''description'', pstr ''Widget''), (pstr ''hsn_sac'', pstr ''8471''),
                 (pstr ''quantity'', PInt 2), (pstr ''rate'', PInt 100),
                 (pstr ''unit'', pstr ''pcs''), (pstr ''amount'', PInt 200)],
          PDict [(pstr ''description'', pstr ''Gadget''), (pstr ''hsn_sac'', pstr ''8472''),
                 (pstr ''quantity'', PInt 1), (pstr ''rate'', PInt 300),
                 (pstr ''unit'', pstr ''pcs''), (pstr ''amount'', PInt 300)],
          PDict [(pstr ''description'', pstr ''Bolt''), (pstr ''hsn_sac'', pstr ''7318''),
                 (pstr ''quantity'', PInt 5), (pstr ''rate'', PInt 100),
                 (pstr ''unit'', pstr ''pcs''), (pstr ''amount'', PInt 500)]]),
      (pstr ''total'', PInt 1180),
      (pstr ''source_page'', PInt 1),
      (pstr ''tax_breakdown'', PDict []),
      (pstr ''subtotal'', PInt 1000)]"
  have e: "merge_multipage_invoices scenario_lib ?X = Inr [?M]"
    by code_simp
  have g: "groups_of ?X = [([pstr ''INV-1'', pstr ''Acme'', pstr ''2024-01-01''], ?X)]"
    by code_simp
  have l: "last_supplied ''total'' ?X = Some (PInt 1180)"
    by code_simp
  from merge_last_supplied_wins [of scenario_lib ?X] e
  have "list_all2 (\<lambda>g m.
         (\<forall>v. last_supplied ''total'' (snd g) = Some v \<longrightarrow>
              lookup m (pstr ''total'') = Some v) \<and>
         (\<forall>v. last_supplied ''subtotal'' (snd g) = Some v \<longrightarrow>
              lookup m (pstr ''subtotal'') = Some v)) (groups_of ?X) [?M]"
    by blast
  then have "lookup ?M (pstr ''total'') = Some (PInt 1180)"
    unfolding g using l by simp
  with e l show ?thesis by simp
qed

lemma keep_first_item_ok:
  "list_all item_ok xs \<Longrightarrow> list_all item_ok (keep_first item_key_of xs)"
  by (rule list_all_keep_first)

text \<open>
  Claim C4. In every merged record that \<^verbatim>\<open>merge_multipage_invoices\<close> returns, the
  line items are the line items of the pages of the group, concatenated in page order,
  of which only the first with each key \<^verbatim>\<open>(description, hsn_sac, quantity, rate)\<close> is
  kept; hence no two line items of a merged record have equal keys. The function returns
  on every sequence of page records of the data model whose key fields are within the
  digit limit.
\<close>

theorem merge_line_items_unique:
  "(list_all (invoice_record lib) X \<longrightarrow> (\<exists>out. merge_multipage_invoices lib X = Inr out)) \<and>
   (\<forall>out. merge_multipage_invoices lib X = Inr out \<longrightarrow>
      list_all2 (\<lambda>g m.
         lookup m (pstr ''line_items'') =
           Some (PList (keep_first item_key_of (group_items (snd g))))) (groups_of X) out \<and>
      list_all (\<lambda>m.
         case dict_get m ''line_items'' of
           PList items \<Rightarrow> list_all item_ok items \<and> pairwise_distinct_keys item_key_of items
         | _ \<Rightarrow> False) out)"
proof (intro conjI allI impI)
  assume "list_all (invoice_record lib) X"
  then show "\<exists>out. merge_multipage_invoices lib X = Inr out"
    by (rule merge_multipage_invoices_record)
next
  fix out assume "merge_multipage_invoices lib X = Inr out"
  then have l: "list_all2 (\<lambda>g m. merge_group (snd g) = Inr m) (groups_of X) out"
    by (rule merge_multipage_invoices_Inr(2))
  then show "list_all2 (\<lambda>g m.
         lookup m (pstr ''line_items'') =
           Some (PList (keep_first item_key_of (group_items (snd g))))) (groups_of X) out"
    by (rule list_all2_mono) (erule merge_group_Inr(3))
  have "case dict_get m ''line_items'' of
           PList items \<Rightarrow> list_all item_ok items \<and> pairwise_distinct_keys item_key_of items
         | _ \<Rightarrow> False" if "m \<in> set out" for m
  proof -
    from that obtain g :: "pytuple \<times> pydict list" where g: "merge_group (snd g) = Inr m"
      using l by (auto simp: list_all2_conv_all_nth in_set_conv_nth)
    from merge_group_Inr(2,3) [OF g] show ?thesis
      by (simp add: dict_get_def keep_first_item_ok pairwise_distinct_keep_first)
  qed
  then show "list_all (\<lambda>m.
         case dict_get m ''line_items'' of
           PList items \<Rightarrow> list_all item_ok items \<and> pairwise_distinct_keys item_key_of items
         | _ \<Rightarrow> False) out"
    by (simp add: list_all_iff)
qed

theorem merge_line_items_unique_witness:
  "list_all (invoice_record scenario_lib) [scenario_a_page1, scenario_repeat_page2] \<and>
   group_items [scenario_a_page1, scenario_repeat_page2] =
     [PDict [(pstr ''description'', pstr ''Widget''), (pstr ''hsn_sac'', pstr ''8471''),
             (pstr ''quantity'', PInt 2), (pstr ''rate'', PInt 100),
             (pstr ''unit'', pstr ''pcs''), (pstr ''amount'', PInt 200)],
      PDict [(pstr ''description'', pstr ''Gadget''), (pstr ''hsn_sac'', pstr ''8472''),
             (pstr ''quantity'', PInt 1), (pstr ''rate'', PInt 300),
             (pstr ''unit'', pstr ''pcs''), (pstr ''amount'', PInt 300)],
      PDict [(pstr ''description'', pstr ''Widget''), (pstr ''hsn_sac'', pstr ''8471''),
             (pstr ''quantity'', PFloat 2), (pstr ''rate'', PInt 100),
             (pstr ''unit'', pstr ''nos''), (pstr ''amount'', PInt 0)],
      PDict [(pstr ''description'', pstr ''Bolt''), (pstr ''hsn_sac'', pstr ''7318''),
             (pstr ''quantity'', PInt 5), (pstr ''rate'', PInt 100),
             (pstr ''unit'', pstr ''pcs''), (pstr ''amount'', PInt 500)]] \<and>
   map (\<lambda>m. dict_get m ''line_items'')
     (projr (merge_multipage_invoices scenario_lib [scenario_a_page1, scenario_repeat_page2])) =
     [PList
       [PDict [(pstr ''description'', pstr ''Widget''), (pstr ''hsn_sac'', pstr ''8471''),
               (pstr ''quantity'', PInt 2), (pstr ''rate'', PInt 100),
               (pstr ''unit'', pstr ''pcs''), (pstr ''amount'', PInt 200)],
        PDict [(pstr ''description'', pstr ''Gadget''), (pstr ''hsn_sac'', pstr ''8472''),
               (pstr ''quantity'', PInt 1), (pstr ''rate'', PInt 300),
               (pstr ''unit'', pstr ''pcs''), (pstr ''amount'', PInt 300)],
        PDict [(pstr ''description'', pstr ''Bolt''), (pstr ''hsn_sac'', pstr ''7318''),
               (pstr ''quantity'', PInt 5), (pstr ''rate'', PInt 100),
               (pstr ''unit'', pstr ''pcs''), (pstr ''amount'', PInt 500)]]]"
proof -
  let ?X = "[scenario_a_page1, scenario_repeat_page2]"
  have r: "list_all (invoice_record scenario_lib) ?X"
    by code_simp
  with merge_line_items_unique [of scenario_lib ?X] obtain out where
    o: "merge_multipage_invoices scenario_lib ?X = Inr out" by blast
  with merge_line_items_unique [of scenario_lib ?X]
  have "list_all2 (\<lambda>g m.
         lookup m (pstr ''line_items'') =
           Some (PList (keep_first item_key_of (group_items (snd g))))) (groups_of ?X) out"
    by blast
  moreover have "groups_of ?X = [([pstr ''INV-1'', pstr ''Acme'', pstr ''2024-01-01''], ?X)]"
    by code_simp
  ultimately obtain m where m: "out = [m]"
    "lookup m (pstr ''line_items'') = Some (PList (keep_first item_key_of (group_items ?X)))"
    by (auto simp: list_all2_Cons1)
  have gi: "group_items ?X =
     [PDict [(pstr ''description'', pstr ''Widget''), (pstr ''hsn_sac'', pstr ''8471''),
             (pstr ''quantity'', PInt 2), (pstr ''rate'', PInt 100),
             (pstr ''unit'', pstr ''pcs''), (pstr ''amount'', PInt 200)],
      PDict [(pstr ''description'', pstr ''Gadget''), (pstr ''hsn_sac'', pstr ''8472''),
             (pstr ''quantity'', PInt 1), (pstr ''rate'', PInt 300),
             (pstr ''unit'', pstr ''pcs''), (pstr ''amount'', PInt 300)],
      PDict [(pstr ''description'', pstr ''Widget''), (pstr ''hsn_sac'', pstr ''8471''),
             (pstr ''quantity'', PFloat 2), (pstr ''rate'', PInt 100),
             (pstr ''unit'', pstr ''nos''), (pstr ''amount'', PInt 0)],
      PDict [(pstr ''description'', pstr ''Bolt''), (pstr ''hsn_sac'', pstr ''7318''),
             (pstr ''quantity'', PInt 5), (pstr ''rate'', PInt 100),
             (pstr ''unit'', pstr ''pcs''), (pstr ''amount'', PInt 500)]]"
    by code_simp
  have kf: "keep_first item_key_of (group_items ?X) =
       [PDict [(pstr ''description'', pstr ''Widget''), (pstr ''hsn_sac'', pstr ''8471''),
               (pstr ''quantity'', PInt 2), (pstr ''rate'', PInt 100),
               (pstr ''unit'', pstr ''pcs''), (pstr ''amount'', PInt 200)],
        PDict [(pstr ''description'', pstr ''Gadget''), (pstr ''hsn_sac'', pstr ''8472''),
               (pstr ''quantity'', PInt 1), (pstr ''rate'', PInt 300),
               (pstr ''unit'', pstr ''pcs''), (pstr ''amount'', PInt 300)],
        PDict [(pstr ''description'', pstr ''Bolt''), (pstr ''hsn_sac'', pstr ''7318''),
               (pstr ''quantity'', PInt 5), (pstr ''rate'', PInt 100),
               (pstr ''unit'', pstr ''pcs''), (pstr ''amount'', PInt 500)]]"
    by code_simp
  from m(2) have "dict_get m ''line_items'' = PList (keep_first item_key_of (group_items ?X))"
    by (simp add: dict_get_def)
  with o m(1) r gi kf show ?thesis by simp
qed

text \<open>
  Claim C10. When no page of a group supplies a truthy \<^verbatim>\<open>total\<close> (\<^verbatim>\<open>subtotal\<close>), the
  merged record has under that key exactly what the first page of the group has: the
  same value, be it zero or empty, or no entry at all when the first page has none. The
  function returns on every sequence of page records of the data model whose key fields
  are within the digit limit.
\<close>

theorem merge_keeps_first_page_totals:
  "(list_all (invoice_record lib) X \<longrightarrow> (\<exists>out. merge_multipage_invoices lib X = Inr out)) \<and>
   (\<forall>out. merge_multipage_invoices lib X = Inr out \<longrightarrow>
      list_all2 (\<lambda>g m.
         snd g \<noteq> [] \<and>
         (list_all (\<lambda>p. \<not> truthy (dict_get p ''total'')) (snd g) \<longrightarrow>
            lookup m (pstr ''total'') = lookup (hd (snd g)) (pstr ''total'')) \<and>
         (list_all (\<lambda>p. \<not> truthy (dict_get p ''subtotal'')) (snd g) \<longrightarrow>
            lookup m (pstr ''subtotal'') = lookup (hd (snd g)) (pstr ''subtotal'')))
        (groups_of X) out)"
proof (intro conjI allI impI)
  assume "list_all (invoice_record lib) X"
  then show "\<exists>out. merge_multipage_invoices lib X = Inr out"
    by (rule merge_multipage_invoices_record)
next
  fix out assume "merge_multipage_invoices lib X = Inr out"
  then have "list_all2 (\<lambda>g m. merge_group (snd g) = Inr m) (groups_of X) out"
    by (rule merge_multipage_invoices_Inr(2))
  then show "list_all2 (\<lambda>g m.
         snd g \<noteq> [] \<and>
         (list_all (\<lambda>p. \<not> truthy (dict_get p ''total'')) (snd g) \<longrightarrow>
            lookup m (pstr ''total'') = lookup (hd (snd g)) (pstr ''total'')) \<and>
         (list_all (\<lambda>p. \<not> truthy (dict_get p ''subtotal'')) (snd g) \<longrightarrow>
            lookup m (pstr ''subtotal'') = lookup (hd (snd g)) (pstr ''subtotal'')))
        (groups_of X) out"
  proof (rule list_all2_mono)
    fix g :: "pytuple \<times> pydict list" and m
    assume "merge_group (snd g) = Inr m"
    from merge_group_Inr(1,4,5) [OF this]
    show "snd g \<noteq> [] \<and>
         (list_all (\<lambda>p. \<not> truthy (dict_get p ''total'')) (snd g) \<longrightarrow>
            lookup m (pstr ''total'') = lookup (hd (snd g)) (pstr ''total'')) \<and>
         (list_all (\<lambda>p. \<not> truthy (dict_get p ''subtotal'')) (snd g) \<longrightarrow>
            lookup m (pstr ''subtotal'') = lookup (hd (snd g)) (pstr ''subtotal''))"
      by (auto simp: last_supplied_def list_all_iff filter_empty_conv split: list.splits)
  qed
qed

theorem merge_keeps_first_page_totals_witness:
  "merge_multipage_invoices scenario_lib [scenario_no_totals_page1, scenario_no_totals_page2] = Inr
     [[(pstr ''type'', pstr ''invoice''),
       (pstr ''invoice_num'', pstr ''INV-7''),
       (pstr ''total'', PInt 0),
       (pstr ''source_page'', PInt 1),
       (pstr ''line_items'', PList []),
       (pstr ''tax_breakdown'', PDict [])]] \<and>
   lookup (hd (projr (merge_multipage_invoices scenario_lib
       [scenario_no_totals_page1, scenario_no_totals_page2]))) (pstr ''total'') =
     Some (PInt 0) \<and>
   lookup (hd (projr (merge_multipage_invoices scenario_lib
       [scenario_no_totals_page1, scenario_no_totals_page2]))) (pstr ''subtotal'') = None"
proof -
  let ?X = "[scenario_no_totals_page1, scenario_no_totals_page2]"
  let ?M = "[(pstr ''type'', pstr ''invoice''),
       (pstr ''invoice_num'', pstr ''INV-7''),
       (pstr ''total'', PInt 0),
       (pstr ''source_page'', PInt 1),
       (pstr ''line_items'', PList []),
       (pstr ''tax_breakdown'', PDict [])]"
  have e: "merge_multipage_invoices scenario_lib ?X = Inr [?M]"
    by code_simp
  have g: "groups_of ?X = [([pstr ''INV-7'', PNone, PNone], ?X)]"
    by code_simp
  have f: "list_all (\<lambda>p. \<not> truthy (dict_get p ''total'')) ?X"
    "list_all (\<lambda>p. \<not> truthy (dict_get p ''subtotal'')) ?X"
    by code_simp+
  have h: "lookup scenario_no_totals_page1 (pstr ''total'') = Some (PInt 0)"
    "lookup scenario_no_totals_page1 (pstr ''subtotal'') = None"
    by code_simp+
  from merge_keeps_first_page_totals [of scenario_lib ?X] e
  have "list_all2 (\<lambda>g m.
         snd g \<noteq> [] \<and>
         (list_all (\<lambda>p. \<not> truthy (dict_get p ''total'')) (snd g) \<longrightarrow>
            lookup m (pstr ''total'') = lookup (hd (snd g)) (pstr ''total'')) \<and>
         (list_all (\<lambda>p. \<not> truthy (dict_get p ''subtotal'')) (snd g) \<longrightarrow>
            lookup m (pstr ''subtotal'') = lookup (hd (snd g)) (pstr ''subtotal'')))
        (groups_of ?X) [?M]"
    by blast
  then have "lookup ?M (pstr ''total'') = Some (PInt 0) \<and> lookup ?M (pstr ''subtotal'') = None"
    unfolding g using f h by simp
  with e show ?thesis by simp
qed

section \<open>Properties of the loading stage\<close>

lemma load_pages_char: "load_pages acc n pages = acc @ readable_pages n pages"
proof (induction pages arbitrary: acc n)
  case Nil
  then show ?case by (simp add: readable_pages_def)
next
  case (Cons p pages)
  then show ?case
    by (cases p) (simp_all add: readable_pages_def)
qed

lemma readable_pages_append:
  "readable_pages n (ps @ qs) = readable_pages n ps @ readable_pages (n + length ps) qs"
  by (simp add: readable_pages_def enumerate_append_eq)

text \<open>
  Claim C9. A page that fails while it is rendered or read is left out and the pages
  after it are still loaded, each with its own page number: the result holds exactly the
  readable pages in document order. A failure to open the document makes
  \<^verbatim>\<open>load_and_split_pdf\<close> raise one exception, and \<^verbatim>\<open>process_invoice_pdf\<close> raises that
  same exception whatever the classification service would have answered: no later
  stage contributes to the outcome. The outcome of the pipeline is a value of a sum
  type: either the exception or the complete result.
\<close>

theorem load_and_split_pdf_failure_partition:
  "load_and_split_pdf (Opened pages) = Inr (readable_pages 0 pages) \<and>
   load_and_split_pdf (Opened (ps @ [RenderFailed] @ qs)) =
     Inr (readable_pages 0 ps @ readable_pages (length ps + 1) qs) \<and>
   load_and_split_pdf (OpenFailed msg) = Inl (Exception (lit ''Failed to load PDF: '' @ msg)) \<and>
   process_invoice_pdf lib post (OpenFailed msg) =
     Inl (Exception (lit ''Failed to load PDF: '' @ msg)) \<and>
   (process_invoice_pdf lib post pdf = Inl (projl (process_invoice_pdf lib post pdf)) \<or>
    process_invoice_pdf lib post pdf = Inr (projr (process_invoice_pdf lib post pdf)))"
proof -
  have "readable_pages 0 (ps @ [RenderFailed] @ qs) =
        readable_pages 0 ps @ readable_pages (length ps + 1) qs"
    by (simp add: readable_pages_append) (simp add: readable_pages_def)
  moreover have "process_invoice_pdf lib post pdf = Inl (projl (process_invoice_pdf lib post pdf)) \<or>
    process_invoice_pdf lib post pdf = Inr (projr (process_invoice_pdf lib post pdf))"
    by (cases "process_invoice_pdf lib post pdf") simp_all
  ultimately show ?thesis
    by (simp add: load_and_split_pdf_def load_pages_char process_invoice_pdf_def)
qed

section \<open>Properties of the extraction stage\<close>

lemma call_ollama_not_decodable:
  "decode_response lib body = None \<Longrightarrow> call_ollama lib (Body body) = Inr non_invoice"
  by (simp add: call_ollama_def)

lemma extract_step_skips:
  assumes "post page = RequestFailed \<or> (\<exists>body. post page = Body body \<and> decode_response lib body = None)"
  shows "extract_step lib post extracted page = Inr extracted"
  using assms
  by (auto simp: extract_step_def call_ollama_def non_invoice_def dict_get_def)

text \<open>
  Claim C2 fails on the code. A reply that is well-formed JSON but not an object (a
  list, a string, a number, \<^verbatim>\<open>null\<close>) is returned by \<^verbatim>\<open>call_ollama\<close> as it is, and
  \<^verbatim>\<open>invoice_data.get("type")\<close> in \<^verbatim>\<open>extract_invoices_from_pages\<close>, which is outside
  every \<^verbatim>\<open>try\<close>, raises \<^verbatim>\<open>AttributeError\<close>: the extraction stage and the whole
  pipeline end with that exception instead of skipping the page.
\<close>

theorem extract_raises_on_non_object_reply:
  assumes "post page = Body body"
    and "decode_response lib body = Some v"
    and "\<not> (\<exists>d. v = PDict d)"
  shows "extract_invoices_from_pages lib post (page # rest) = Inl AttributeError"
  using assms
  by (cases v) (simp_all add: extract_invoices_from_pages_def extract_step_def call_ollama_def)

theorem extract_raises_on_non_object_reply_witness:
  "extract_invoices_from_pages scenario_lib
     (\<lambda>page. Body (PDict [(pstr ''response'', pstr '' []  '')]))
     [\<lparr>page_num = 1, image_base64 = lit ''aW1n'', page_text = []\<rparr>,
      \<lparr>page_num = 2, image_base64 = lit ''aW1n'', page_text = []\<rparr>] = Inl AttributeError \<and>
   process_invoice_pdf scenario_lib
     (\<lambda>page. Body (PDict [(pstr ''response'', pstr '' []  '')]))
     (Opened [Rendered (lit ''aW1n'') None, Rendered (lit ''aW1n'') None]) = Inl AttributeError"
proof -
  let ?post = "\<lambda>page::page_data. Body (PDict [(pstr ''response'', pstr '' []  '')])"
  let ?p1 = "\<lparr>page_num = 1, image_base64 = lit ''aW1n'', page_text = []\<rparr>"
  let ?p2 = "\<lparr>page_num = 2, image_base64 = lit ''aW1n'', page_text = []\<rparr>"
  have d: "decode_response scenario_lib (PDict [(pstr ''response'', pstr '' []  '')]) =
           Some (PList [])"
    by code_simp
  have e: "extract_invoices_from_pages scenario_lib ?post [?p1, ?p2] = Inl AttributeError"
    by (rule extract_raises_on_non_object_reply [OF _ d]) simp_all
  have l: "load_and_split_pdf (Opened [Rendered (lit ''aW1n'') None, Rendered (lit ''aW1n'') None]) =
           Inr [?p1, ?p2]"
    by (simp add: load_and_split_pdf_def)
  from e l show ?thesis
    by (simp add: process_invoice_pdf_def)
qed

section \<open>Properties of the formatter\<close>

lemma within_money [simp]: "within_digit_limit (lib\<lparr>money := f\<rparr>) v = within_digit_limit lib v"
  by (simp add: within_digit_limit_def)

lemma py_text_money [simp]: "py_text (lib\<lparr>money := f\<rparr>) v = py_text lib v"
  by (cases v) simp_all

lemma py_str_money [simp]: "py_str (lib\<lparr>money := f\<rparr>) v = py_str lib v"
  by (simp add: py_str_def)

subsection \<open>Values inside an invoice within the digit limit\<close>



lemma within_simps [simp]:
  "within_digit_limit lib (PStr s)" "within_digit_limit lib (PInt 0)"
  "within_digit_limit lib (PList [])" "within_digit_limit lib (PDict [])"
  by (simp_all add: within_digit_limit_def too_many_digits_def nat_digits.simps)





subsection \<open>Invoices of the expected shape are rendered\<close>













lemma format_header_money [simp]:
  "format_header (lib\<lparr>money := f\<rparr>) invoice = format_header lib invoice"
  by (simp add: format_header_def)







subsection \<open>Where the monetary fields appear in the report\<close>


lemma format_tax_amount:
  assumes "format_tax lib (PStr t, PDict info) = Inr line"
  shows "\<exists>rate_text amount_str.
           currency_text lib (dict_get_default info ''amount'' (PInt 0)) = Inr amount_str \<and>
           line = lit ''**'' @ upper lib t @ lit '' ('' @ rate_text @ lit '')**: '' @
                  amount_str @ [10]"
  using assms by (auto simp: format_tax_def bind_err_Inr_iff)





subsection \<open>An integer beyond the digit limit\<close>






subsection \<open>The delimiter in the line-item table\<close>

lemma description_cell:
  "124 \<notin> set (take 50 (replace_char 124 47 s)) \<and> length (take 50 (replace_char 124 47 s)) \<le> 50"
  by (auto simp: replace_char_def dest!: in_set_takeD)

lemma small_int_text [simp]:
  "py_str lib (PInt 2) = Inr (lit ''2'')" "py_str lib (PInt 10) = Inr (lit ''10'')"
  by (simp_all add: py_str_def too_many_digits_def int_str_def nat_digits.simps lit_def)

text \<open>
  Claim C7 fails on the code. Only \<^verbatim>\<open>description\<close> has the delimiter \<^verbatim>\<open>|\<close> replaced
  (and is cut to 50 characters); \<^verbatim>\<open>hsn_sac\<close>, \<^verbatim>\<open>unit\<close> and the other cells are written
  as they are, so a delimiter in them reaches the table and breaks the row. The last
  cell is the amount, two decimals when the coercion succeeds and the plain text
  \<^verbatim>\<open>n/a\<close> when it fails.
\<close>

theorem format_item_delimiter_in_other_cells:
  "format_item lib
     (PDict [(pstr ''description'', pstr ''Nut|Bolt''), (pstr ''hsn_sac'', pstr ''73|18''),
             (pstr ''quantity'', PInt 2), (pstr ''rate'', PInt 10),
             (pstr ''unit'', pstr ''kg|pc''), (pstr ''amount'', pstr ''n/a'')]) =
   Inr (lit ''| Nut/Bolt | 73|18 | 2 | 10 | kg|pc | '' @
        (case money lib (pstr ''n/a'') of Some s \<Rightarrow> s | None \<Rightarrow> lit ''n/a'') @
        lit '' |'' @ [10])"
  by (simp add: format_item_def dict_get_default_def Let_def replace_char_def lit_def
      amount_text_def split: option.splits)

end
